theory Spec2Isabelle
  imports Complex_Main
begin

section \<open>Python primitives used by the bot\<close>

text \<open>
  Exceptions are values. \<open>KeyError\<close> is the only exception the repository's own code can
  raise (dictionary access); the other constructors stand for what the external
  collaborators raise: \<open>discord.Forbidden\<close>, any other \<open>discord.HTTPException\<close>, and
  any other subclass of \<open>Exception\<close> (translation back ends, language detector, network).
\<close>

datatype py_exception = KeyError | Forbidden | HTTPException | OtherException string

text \<open>
  A call that may raise returns its result (\<open>Inl\<close> the exception) together with the state
  it leaves behind: a Python exception does not undo the mutations made before it.
\<close>

subsection \<open>\<open>collections.OrderedDict\<close>\<close>

text \<open>
  An ordered dictionary is the list of its items, oldest position first. The operations
  below are the ones \<open>TTLCache\<close> uses; \<open>None\<close> stands for \<open>KeyError\<close>.
\<close>

type_synonym ('k, 'v) ordered_dict = "('k \<times> 'v) list"

definition od_contains :: "('k, 'v) ordered_dict \<Rightarrow> 'k \<Rightarrow> bool" where
  "od_contains d k = (k \<in> set (map fst d))"

definition od_getitem :: "('k, 'v) ordered_dict \<Rightarrow> 'k \<Rightarrow> 'v option" where
  "od_getitem d k = map_of d k"

definition od_delitem :: "('k, 'v) ordered_dict \<Rightarrow> 'k \<Rightarrow> ('k, 'v) ordered_dict" where
  "od_delitem d k = filter (\<lambda>p. fst p \<noteq> k) d"

definition od_move_to_end :: "('k, 'v) ordered_dict \<Rightarrow> 'k \<Rightarrow> ('k, 'v) ordered_dict option" where
  "od_move_to_end d k =
     (case map_of d k of
        None \<Rightarrow> None
      | Some v \<Rightarrow> Some (filter (\<lambda>p. fst p \<noteq> k) d @ [(k, v)]))"

definition od_setitem :: "('k, 'v) ordered_dict \<Rightarrow> 'k \<Rightarrow> 'v \<Rightarrow> ('k, 'v) ordered_dict" where
  "od_setitem d k v =
     (if k \<in> set (map fst d) then map (\<lambda>p. if fst p = k then (k, v) else p) d
      else d @ [(k, v)])"

definition od_popitem_first ::
  "('k, 'v) ordered_dict \<Rightarrow> (('k \<times> 'v) \<times> ('k, 'v) ordered_dict) option" where
  "od_popitem_first d = (case d of [] \<Rightarrow> None | p # rest \<Rightarrow> Some (p, rest))"

subsection \<open>\<open>collections.defaultdict\<close>\<close>

text \<open>
  Reading a missing key of a \<open>defaultdict\<close> stores the default under that key and
  returns it: a read can change the dictionary.
\<close>

definition dd_getitem :: "'v \<Rightarrow> ('k \<rightharpoonup> 'v) \<Rightarrow> 'k \<Rightarrow> 'v \<times> ('k \<rightharpoonup> 'v)" where
  "dd_getitem dflt d k = (case d k of None \<Rightarrow> (dflt, d(k \<mapsto> dflt)) | Some v \<Rightarrow> (v, d))"

subsection \<open>Strings\<close>

text \<open>
  A Python \<open>str\<close> is a sequence of code points and \<open>len\<close> counts code points. A
  \<open>char\<close> is a code point below 256, so the strings of this theory are the Python
  strings over Latin-1; \<open>str.isspace\<close>, \<open>str.isalpha\<close> and \<open>str.lower\<close> are
  Python's tables on that range.
\<close>

definition py_isspace :: "char \<Rightarrow> bool" where
  "py_isspace c =
     (let n = (of_char c :: nat)
      in (9 \<le> n \<and> n \<le> 13) \<or> (28 \<le> n \<and> n \<le> 32) \<or> n = 133 \<or> n = 160)"

definition py_isalpha :: "char \<Rightarrow> bool" where
  "py_isalpha c =
     (let n = (of_char c :: nat)
      in (65 \<le> n \<and> n \<le> 90) \<or> (97 \<le> n \<and> n \<le> 122) \<or> n = 170 \<or> n = 181 \<or> n = 186 \<or>
         (192 \<le> n \<and> n \<le> 214) \<or> (216 \<le> n \<and> n \<le> 246) \<or> (248 \<le> n \<and> n \<le> 255))"

definition py_lower_char :: "char \<Rightarrow> char" where
  "py_lower_char c =
     (let n = (of_char c :: nat)
      in if (65 \<le> n \<and> n \<le> 90) \<or> (192 \<le> n \<and> n \<le> 214) \<or> (216 \<le> n \<and> n \<le> 222)
         then char_of (n + 32) else c)"

definition py_lower :: "string \<Rightarrow> string" where
  "py_lower s = map py_lower_char s"

definition py_strip :: "string \<Rightarrow> string" where
  "py_strip s = rev (dropWhile py_isspace (rev (dropWhile py_isspace s)))"

definition py_startswith :: "string \<Rightarrow> string \<Rightarrow> bool" where
  "py_startswith s p = (take (length p) s = p)"

text \<open>\<open>text.replace(' ', '')\<close>: every occurrence of the one-character string is removed.\<close>

definition py_remove_spaces :: "string \<Rightarrow> string" where
  "py_remove_spaces s = filter (\<lambda>c. c \<noteq> CHR '' '') s"

section \<open>The translation cache: \<open>class TTLCache\<close>\<close>

text \<open>
  \<open>cache\<close> is \<open>self._cache\<close> (an \<open>OrderedDict\<close>), \<open>timestamps\<close> is
  \<open>self._timestamps\<close> (a \<open>dict\<close>). \<open>time.time()\<close> returns a float; time is a \<open>real\<close>
  here, and every function that reads the clock once takes the value read as its
  argument \<open>now\<close>.
\<close>

record ('k, 'v) ttl_cache =
  cache :: "('k, 'v) ordered_dict"
  timestamps :: "'k \<rightharpoonup> real"
  max_size :: int
  ttl :: int

definition TTLCache_init :: "int \<Rightarrow> int \<Rightarrow> ('k, 'v) ttl_cache" where
  "TTLCache_init max_size_arg ttl_seconds =
     \<lparr>cache = [], timestamps = Map.empty, max_size = max_size_arg, ttl = ttl_seconds\<rparr>"

definition TTLCache_get ::
  "('k, 'v) ttl_cache \<Rightarrow> 'k \<Rightarrow> real \<Rightarrow> (py_exception + 'v option) \<times> ('k, 'v) ttl_cache" where
  "TTLCache_get c key now =
     (if od_contains (cache c) key then
        (case timestamps c key of
           None \<Rightarrow> (Inl KeyError, c)
         | Some ts \<Rightarrow>
             if now - ts > real_of_int (ttl c) then
               (Inr None,
                c\<lparr>cache := od_delitem (cache c) key, timestamps := (timestamps c)(key := None)\<rparr>)
             else
               (case od_move_to_end (cache c) key of
                  None \<Rightarrow> (Inl KeyError, c)
                | Some d \<Rightarrow>
                    (case od_getitem d key of
                       None \<Rightarrow> (Inl KeyError, c\<lparr>cache := d\<rparr>)
                     | Some v \<Rightarrow> (Inr (Some v), c\<lparr>cache := d\<rparr>))))
      else (Inr None, c))"

text \<open>The \<open>while len(self._cache) > self.max_size\<close> loop of \<open>set\<close>.\<close>

function evict_loop ::
  "('k, 'v) ttl_cache \<Rightarrow> (py_exception + unit) \<times> ('k, 'v) ttl_cache" where
  "evict_loop c =
     (if int (length (cache c)) > max_size c then
        (case od_popitem_first (cache c) of
           None \<Rightarrow> (Inl KeyError, c)
         | Some ((oldest, _), rest) \<Rightarrow>
             evict_loop (c\<lparr>cache := rest, timestamps := (timestamps c)(oldest := None)\<rparr>))
      else (Inr (), c))"
  by pat_completeness auto
termination
  by (relation "measure (\<lambda>c. length (cache c))")
     (auto simp: od_popitem_first_def split: list.splits)

declare evict_loop.simps [simp del]

definition TTLCache_set ::
  "('k, 'v) ttl_cache \<Rightarrow> 'k \<Rightarrow> 'v \<Rightarrow> real \<Rightarrow> (py_exception + unit) \<times> ('k, 'v) ttl_cache" where
  "TTLCache_set c key val now =
     (case (if od_contains (cache c) key then od_move_to_end (cache c) key
            else Some (cache c)) of
        None \<Rightarrow> (Inl KeyError, c)
      | Some d \<Rightarrow>
          evict_loop (c\<lparr>cache := od_setitem d key val, timestamps := (timestamps c)(key \<mapsto> now)\<rparr>))"

definition TTLCache_len :: "('k, 'v) ttl_cache \<Rightarrow> nat" where
  "TTLCache_len c = length (cache c)"

text \<open>
  The representation invariant of the class: the ordered dictionary has no repeated key
  (it is a dictionary), and the two dictionaries have the same keys.
\<close>

definition cache_inv :: "('k, 'v) ttl_cache \<Rightarrow> bool" where
  "cache_inv c = (distinct (map fst (cache c)) \<and> dom (timestamps c) = set (map fst (cache c)))"

subsection \<open>Sequences of cache operations\<close>

text \<open>
  A call of \<open>get\<close> or \<open>set\<close>, with the time the clock shows during the call.
  \<open>run\<close> performs a sequence of calls on a cache. A call touches its key when it is a
  \<open>set\<close>, or a \<open>get\<close> that returns a value; \<open>touches\<close> lists the keys touched
  during a run, in the order of the calls.
\<close>

datatype ('k, 'v) cache_op = Get 'k real | Set 'k 'v real

fun apply_op :: "('k, 'v) ttl_cache \<Rightarrow> ('k, 'v) cache_op \<Rightarrow> ('k, 'v) ttl_cache" where
  "apply_op c (Get k now) = snd (TTLCache_get c k now)"
| "apply_op c (Set k v now) = snd (TTLCache_set c k v now)"

fun run :: "('k, 'v) ttl_cache \<Rightarrow> ('k, 'v) cache_op list \<Rightarrow> ('k, 'v) ttl_cache" where
  "run c [] = c"
| "run c (operation # ops) = run (apply_op c operation) ops"

fun touched :: "('k, 'v) ttl_cache \<Rightarrow> ('k, 'v) cache_op \<Rightarrow> 'k list" where
  "touched c (Get k now) = (case fst (TTLCache_get c k now) of Inr (Some _) \<Rightarrow> [k] | _ \<Rightarrow> [])"
| "touched c (Set k v now) = [k]"

fun touches :: "('k, 'v) ttl_cache \<Rightarrow> ('k, 'v) cache_op list \<Rightarrow> 'k list" where
  "touches c [] = []"
| "touches c (operation # ops) = touched c operation @ touches (apply_op c operation) ops"

text \<open>
  \<open>remdups\<close> keeps the last occurrence of each element, so \<open>remdups (touches c ops)\<close>
  lists the touched keys by their last touch, the least recently used first. A list of keys
  is in LRU order for a history of touches when it is that list restricted to its own keys.
\<close>

definition lru_ordered :: "'k list \<Rightarrow> 'k list \<Rightarrow> bool" where
  "lru_ordered ks history = (ks = filter (\<lambda>k. k \<in> set ks) (remdups history))"

section \<open>Configuration, statistics and the program state\<close>

text \<open>
  \<open>COOLDOWN_SECONDS\<close> and \<open>MAX_TRANSLATIONS_PER_HOUR\<close> are read from the environment
  at start-up (default 30 each), so they are parameters; the other constants are literals
  of the source.
\<close>

record config =
  COOLDOWN_SECONDS :: int
  MAX_TRANSLATIONS_PER_HOUR :: int

definition default_config :: config where
  "default_config = \<lparr>COOLDOWN_SECONDS = 30, MAX_TRANSLATIONS_PER_HOUR = 30\<rparr>"

definition MIN_MESSAGE_LENGTH :: nat where
  "MIN_MESSAGE_LENGTH = 15"

definition MAX_MESSAGE_LENGTH :: nat where
  "MAX_MESSAGE_LENGTH = 1500"

definition CACHE_MAX_SIZE :: int where
  "CACHE_MAX_SIZE = 2000"

definition CACHE_TTL_SECONDS :: int where
  "CACHE_TTL_SECONDS = 3600"

text \<open>
  The keys of the dictionary \<open>TARGET_LANGUAGES\<close>, in insertion order (iterating a
  \<open>dict\<close> yields its keys in that order). The values are display names, used only to label
  the fields of the reply; \<open>LANG_FLAGS\<close> has the same keys.
\<close>

definition TARGET_LANGUAGES :: "string list" where
  "TARGET_LANGUAGES = [''en'', ''fr'', ''es'']"

record stats =
  translations_total :: int
  cache_hits :: int
  rate_limit_blocks :: int
  errors :: int
  api_calls :: int

datatype backend = MyMemory | Google

text \<open>
  What the program does to the outside world, in order: a call of a translation back end
  (source language, target language, text) and a call of \<open>message.reply\<close> with the
  fields of the embed (language code, value).
\<close>

datatype effect =
    BackendCall backend string string string
  | ReplyCall "(string \<times> string) list"

type_synonym cache_key = "string \<times> string \<times> string"

text \<open>
  The module's global variables. \<open>effects\<close> is not a variable of the program: it records
  the external calls made so far.
\<close>

record state =
  translation_cache :: "(cache_key, string) ttl_cache"
  author_cooldowns :: "int \<rightharpoonup> real"
  author_translation_count :: "int \<rightharpoonup> real list"
  stats :: stats
  effects :: "effect list"

definition initial_state :: state where
  "initial_state =
     \<lparr>translation_cache = TTLCache_init CACHE_MAX_SIZE CACHE_TTL_SECONDS,
      author_cooldowns = Map.empty,
      author_translation_count = Map.empty,
      stats = \<lparr>translations_total = 0, cache_hits = 0, rate_limit_blocks = 0, errors = 0,
               api_calls = 0\<rparr>,
      effects = []\<rparr>"

text \<open>
  The external collaborators and the clock. \<open>translator b src dst text\<close> is what back end
  \<open>b\<close> answers, \<open>detect\<close> is \<open>langdetect.detect\<close>, \<open>reply\<close> is \<open>message.reply\<close>
  applied to the embed's fields. Each \<open>clock_\<close> field is the value \<open>time.time()\<close>
  returns at one call site: in \<open>check_rate_limit\<close>, in the cache lookup and the cache
  store of \<open>translate_text\<close> for a target language, and in \<open>update_rate_limit\<close>.
\<close>

record world =
  translator :: "backend \<Rightarrow> string \<Rightarrow> string \<Rightarrow> string \<Rightarrow> py_exception + string"
  detect :: "string \<Rightarrow> py_exception + string"
  reply :: "(string \<times> string) list \<Rightarrow> py_exception + unit"
  clock_check :: real
  clock_get :: "string \<Rightarrow> real"
  clock_set :: "backend \<Rightarrow> string \<Rightarrow> real"
  clock_commit :: real

section \<open>The rate limiter\<close>

text \<open>\<open>stats['rate_limit_blocks'] += 1\<close>\<close>

definition block :: "state \<Rightarrow> state" where
  "block s = s\<lparr>stats := (stats s)\<lparr>rate_limit_blocks := rate_limit_blocks (stats s) + 1\<rparr>\<rparr>"

definition check_rate_limit :: "config \<Rightarrow> real \<Rightarrow> int \<Rightarrow> state \<Rightarrow> (bool \<times> string) \<times> state" where
  "check_rate_limit cfg now author s =
     (case dd_getitem 0 (author_cooldowns s) author of
        (last_ts, cooldowns) \<Rightarrow>
          let s1 = s\<lparr>author_cooldowns := cooldowns\<rparr> in
          if now - last_ts < real_of_int (COOLDOWN_SECONDS cfg) then ((False, ''cooldown''), block s1)
          else
            let hour_ago = now - 3600 in
            (case dd_getitem [] (author_translation_count s1) author of
               (recorded, counts) \<Rightarrow>
                 let counts1 = counts(author \<mapsto> filter (\<lambda>ts. ts > hour_ago) recorded) in
                 (case dd_getitem [] counts1 author of
                    (pruned, counts2) \<Rightarrow>
                      let s2 = s1\<lparr>author_translation_count := counts2\<rparr> in
                      if int (length pruned) \<ge> MAX_TRANSLATIONS_PER_HOUR cfg
                      then ((False, ''hour limit''), block s2)
                      else ((True, ''''), s2))))"

definition update_rate_limit :: "real \<Rightarrow> int \<Rightarrow> state \<Rightarrow> state" where
  "update_rate_limit now author s =
     (case dd_getitem [] (author_translation_count s) author of
        (recorded, counts) \<Rightarrow>
          s\<lparr>author_cooldowns := (author_cooldowns s)(author \<mapsto> now),
            author_translation_count := counts(author \<mapsto> recorded @ [now])\<rparr>)"

text \<open>
  What a read of the two \<open>defaultdict\<close>s returns for a user: the time of the last accepted
  translation (\<open>0.0\<close> when there is none) and the recorded sequence of timestamps.
\<close>

definition last_accepted :: "state \<Rightarrow> int \<Rightarrow> real" where
  "last_accepted s author = fst (dd_getitem 0 (author_cooldowns s) author)"

definition recorded :: "state \<Rightarrow> int \<Rightarrow> real list" where
  "recorded s author = fst (dd_getitem [] (author_translation_count s) author)"

text \<open>A sequence of commits by one user, at the given times.\<close>

fun commits :: "int \<Rightarrow> real list \<Rightarrow> state \<Rightarrow> state" where
  "commits author [] s = s"
| "commits author (t # ts) s = commits author ts (update_rate_limit t author s)"

section \<open>Language codes\<close>

definition normalize_lang :: "string \<Rightarrow> string" where
  "normalize_lang lang =
     (let mapping = [(''zh-cn'', ''zh''), (''zh-tw'', ''zh''), (''pt-br'', ''pt''), (''iw'', ''he'')]
      in case map_of mapping (py_lower lang) of
           None \<Rightarrow> py_lower lang
         | Some code \<Rightarrow> code)"

section \<open>The back-end chain: \<open>translate_text\<close>\<close>

text \<open>
  Python's truth value of what \<open>TTLCache.get\<close> returned: \<open>None\<close> and the empty string
  are false.
\<close>

definition truthy :: "string option \<Rightarrow> bool" where
  "truthy cached = (case cached of None \<Rightarrow> False | Some r \<Rightarrow> r \<noteq> [])"

text \<open>
  One \<open>try\<close> block of \<open>translate_text\<close>: the call of the back end, the increment of
  \<open>api_calls\<close> and the store into the cache are all inside it, so an exception of any of
  them is the block's exception.
\<close>

definition try_backend ::
  "world \<Rightarrow> backend \<Rightarrow> string \<Rightarrow> string \<Rightarrow> string \<Rightarrow> state \<Rightarrow> (py_exception + string) \<times> state" where
  "try_backend w b text source_lang target_lang s =
     (let cache_key = (py_strip text, source_lang, target_lang);
          s1 = s\<lparr>effects := effects s @ [BackendCall b source_lang target_lang text]\<rparr>
      in case translator w b source_lang target_lang text of
           Inl e \<Rightarrow> (Inl e, s1)
         | Inr result \<Rightarrow>
             let s2 = s1\<lparr>stats := (stats s1)\<lparr>api_calls := api_calls (stats s1) + 1\<rparr>\<rparr> in
             (case TTLCache_set (translation_cache s2) cache_key result (clock_set w b target_lang) of
                (Inl e, c) \<Rightarrow> (Inl e, s2\<lparr>translation_cache := c\<rparr>)
              | (Inr _, c) \<Rightarrow> (Inr result, s2\<lparr>translation_cache := c\<rparr>)))"

definition translate_text ::
  "world \<Rightarrow> string \<Rightarrow> string \<Rightarrow> string \<Rightarrow> state \<Rightarrow> (py_exception + string) \<times> state" where
  "translate_text w text source_lang target_lang s =
     (let cache_key = (py_strip text, source_lang, target_lang) in
      case TTLCache_get (translation_cache s) cache_key (clock_get w target_lang) of
        (Inl e, c) \<Rightarrow> (Inl e, s\<lparr>translation_cache := c\<rparr>)
      | (Inr cached, c) \<Rightarrow>
          let s1 = s\<lparr>translation_cache := c\<rparr> in
          if truthy cached then
            (Inr (the cached), s1\<lparr>stats := (stats s1)\<lparr>cache_hits := cache_hits (stats s1) + 1\<rparr>\<rparr>)
          else
            (case try_backend w MyMemory text source_lang target_lang s1 of
               (Inr result, s2) \<Rightarrow> (Inr result, s2)
             | (Inl _, s2) \<Rightarrow>
                 (case try_backend w Google text source_lang target_lang s2 of
                    (Inr result, s3) \<Rightarrow> (Inr result, s3)
                  | (Inl e, s3) \<Rightarrow>
                      (Inl e, s3\<lparr>stats := (stats s3)\<lparr>errors := errors (stats s3) + 1\<rparr>\<rparr>))))"

section \<open>The message filter\<close>

record message =
  author_bot :: bool
  author_id :: int
  content :: string

definition forbidden_prefixes :: "string list" where
  "forbidden_prefixes = [''!'', ''/'', ''http://'', ''https://'', ''<@'', ''<#'', ''<:'', ''```'']"

definition should_translate :: "message \<Rightarrow> bool" where
  "should_translate msg =
     (if author_bot msg then False
      else
        let text = py_strip (content msg) in
        if length text < MIN_MESSAGE_LENGTH \<or> length text > MAX_MESSAGE_LENGTH then False
        else if list_ex (py_startswith text) forbidden_prefixes then False
        else if list_all (\<lambda>c. \<not> py_isalpha c) (py_remove_spaces text) then False
        else True)"

section \<open>The orchestrator: \<open>on_message\<close>\<close>

definition langs_to_translate :: "string list \<Rightarrow> string \<Rightarrow> string list" where
  "langs_to_translate targets source_lang =
     (let langs = filter (\<lambda>lang. lang \<noteq> source_lang) targets
      in if source_lang \<notin> set targets then targets else langs)"

text \<open>
  The loop over \<open>langs_to_translate\<close>; \<open>translations\<close> is a \<open>dict\<close>, kept in
  insertion order. A language whose translation raises is skipped.
\<close>

fun translate_all ::
  "world \<Rightarrow> string \<Rightarrow> string \<Rightarrow> string list \<Rightarrow> (string \<times> string) list \<Rightarrow> state \<Rightarrow>
   (string \<times> string) list \<times> state" where
  "translate_all w text source_lang [] translations s = (translations, s)"
| "translate_all w text source_lang (lang # langs) translations s =
     (case translate_text w text source_lang lang s of
        (Inr translated, s1) \<Rightarrow>
          translate_all w text source_lang langs (od_setitem translations lang translated) s1
      | (Inl _, s1) \<Rightarrow> translate_all w text source_lang langs translations s1)"

definition truncate_field :: "string \<Rightarrow> string" where
  "truncate_field translated =
     (if length translated > 1000 then take 997 translated @ ''...'' else translated)"

definition build_embed :: "(string \<times> string) list \<Rightarrow> (string \<times> string) list" where
  "build_embed translations = map (\<lambda>(lang, translated). (lang, truncate_field translated)) translations"

text \<open>
  Where \<open>on_message\<close> stops. The Python function returns \<open>None\<close> on every path but the
  last: an exception of \<open>message.reply\<close> that is no \<open>discord.HTTPException\<close> leaves
  the handler.
\<close>

datatype outcome =
    Ignored
  | Blocked
  | DetectionFailed
  | NoTargets
  | NoTranslations
  | Replied "(string \<times> string) list"
  | ReplyFailed py_exception
  | Raised py_exception

text \<open>
  The final \<open>try\<close> block. \<open>discord.Forbidden\<close> is a subclass of
  \<open>discord.HTTPException\<close> and its handler comes first.
\<close>

definition send_reply ::
  "world \<Rightarrow> message \<Rightarrow> (string \<times> string) list \<Rightarrow> state \<Rightarrow> outcome \<times> state" where
  "send_reply w msg translations s =
     (let embed = build_embed translations;
          s1 = s\<lparr>effects := effects s @ [ReplyCall embed]\<rparr>
      in case reply w embed of
           Inr _ \<Rightarrow>
             let s2 = update_rate_limit (clock_commit w) (author_id msg) s1 in
             (Replied embed,
              s2\<lparr>stats := (stats s2)\<lparr>translations_total :=
                    translations_total (stats s2) + int (length translations)\<rparr>\<rparr>)
         | Inl Forbidden \<Rightarrow> (ReplyFailed Forbidden, s1)
         | Inl HTTPException \<Rightarrow>
             (ReplyFailed HTTPException, s1\<lparr>stats := (stats s1)\<lparr>errors := errors (stats s1) + 1\<rparr>\<rparr>)
         | Inl e \<Rightarrow> (Raised e, s1))"

definition on_message :: "config \<Rightarrow> world \<Rightarrow> message \<Rightarrow> state \<Rightarrow> outcome \<times> state" where
  "on_message cfg w msg s =
     (if \<not> should_translate msg then (Ignored, s)
      else
        (case check_rate_limit cfg (clock_check w) (author_id msg) s of
           ((can, _), s1) \<Rightarrow>
             if \<not> can then (Blocked, s1)
             else
               let text = py_strip (content msg) in
               (case detect w text of
                  Inl _ \<Rightarrow> (DetectionFailed, s1)
                | Inr detected \<Rightarrow>
                    let source_lang = normalize_lang detected;
                        langs = langs_to_translate TARGET_LANGUAGES source_lang
                    in if langs = [] then (NoTargets, s1)
                       else
                         (case translate_all w text source_lang langs [] s1 of
                            (translations, s2) \<Rightarrow>
                              if translations = [] then (NoTranslations, s2)
                              else send_reply w msg translations s2))))"

text \<open>
  The target languages of the MyMemory calls in a record of external calls, in order.
  \<open>translate_text\<close> either counts a cache hit or calls MyMemory, so these calls and the
  \<open>cache_hits\<close> counter together show for which languages it was attempted.
\<close>

fun mymemory_targets :: "effect list \<Rightarrow> string list" where
  "mymemory_targets [] = []"
| "mymemory_targets (BackendCall MyMemory source_lang target_lang text # rest) =
     target_lang # mymemory_targets rest"
| "mymemory_targets (_ # rest) = mymemory_targets rest"

section \<open>Example environments\<close>

text \<open>
  An environment in which the two back ends give the same answer to every request,
  \<open>message.reply\<close> has a fixed outcome, the detector answers \<open>fr\<close>, and the clock shows
  1000 at the rate-limit check, 1001 at cache lookups, 1002 at cache stores and 1003 at the
  commit.
\<close>

definition demo_world ::
  "(py_exception + string) \<Rightarrow> (py_exception + string) \<Rightarrow> (py_exception + unit) \<Rightarrow> world" where
  "demo_world mymemory_answer google_answer reply_outcome =
     \<lparr>translator = (\<lambda>b source_lang target_lang text.
         case b of MyMemory \<Rightarrow> mymemory_answer | Google \<Rightarrow> google_answer),
      detect = (\<lambda>text. Inr ''fr''),
      reply = (\<lambda>embed. reply_outcome),
      clock_check = 1000,
      clock_get = (\<lambda>target_lang. 1001),
      clock_set = (\<lambda>b target_lang. 1002),
      clock_commit = 1003\<rparr>"

text \<open>A message by user 7 that passes the filter.\<close>

definition demo_message :: message where
  "demo_message = \<lparr>author_bot = False, author_id = 7, content = ''Bonjour le monde''\<rparr>"

section \<open>Properties of the translation cache\<close>

lemma restrict_compl_upd_None: "(m(k := None)) |` (- A) = m |` (- insert k A)"
  by (rule ext) (simp add: restrict_map_def)

lemma evict_loop_eq:
  "0 \<le> max_size c \<Longrightarrow>
   evict_loop c =
     (Inr (), c\<lparr>cache := drop (length (cache c) - nat (max_size c)) (cache c),
               timestamps := timestamps c |` (- set (map fst (take (length (cache c) - nat (max_size c)) (cache c))))\<rparr>)"
proof (induction c rule: evict_loop.induct)
  case (1 c)
  show ?case
  proof (cases "int (length (cache c)) > max_size c")
    case False
    then have "length (cache c) - nat (max_size c) = 0" by linarith
    with False show ?thesis by (subst evict_loop.simps) (simp add: restrict_map_def)
  next
    case True
    with "1.prems" obtain p rest where cc: "cache c = p # rest"
      by (cases "cache c") auto
    obtain oldest v where p: "p = (oldest, v)" by (cases p)
    define m where "m = length rest - nat (max_size c)"
    let ?c' = "c\<lparr>cache := rest, timestamps := (timestamps c)(oldest := None)\<rparr>"
    have pop: "od_popitem_first (cache c) = Some ((oldest, v), rest)"
      by (simp add: od_popitem_first_def cc p)
    have nonneg: "0 \<le> max_size ?c'" using "1.prems" by simp
    have ih: "evict_loop ?c' =
       (Inr (), ?c'\<lparr>cache := drop (length (cache ?c') - nat (max_size ?c')) (cache ?c'),
               timestamps := timestamps ?c' |` (- set (map fst (take (length (cache ?c') - nat (max_size ?c')) (cache ?c'))))\<rparr>)"
      by (rule "1.IH"[OF True pop refl refl nonneg])
    have n: "length (cache c) - nat (max_size c) = Suc m"
      using True "1.prems" cc by (simp add: Suc_diff_le m_def)
    have ts: "((timestamps c)(oldest := None)) |` (- set (map fst (take m rest)))
        = timestamps c |` (- set (map fst (take (Suc m) (p # rest))))"
      by (simp only: restrict_compl_upd_None take_Suc_Cons list.map list.set p fst_conv)
    have "evict_loop c = evict_loop ?c'"
      by (subst evict_loop.simps) (simp add: True pop)
    also have "\<dots> = (Inr (), c\<lparr>cache := drop m rest,
         timestamps := ((timestamps c)(oldest := None)) |` (- set (map fst (take m rest)))\<rparr>)"
      unfolding ih by (simp add: m_def)
    finally have "evict_loop c = (Inr (), c\<lparr>cache := drop (Suc m) (p # rest),
         timestamps := timestamps c |` (- set (map fst (take (Suc m) (p # rest))))\<rparr>)"
      unfolding ts by simp
    then show ?thesis
      unfolding n unfolding cc .
  qed
qed


lemma map_of_eq_None_keys: "(map_of d k = None) = (k \<notin> set (map fst d))"
  by (simp add: map_of_eq_None_iff)

lemma map_of_filter_other: "map_of (filter (\<lambda>p. fst p \<noteq> k) d) k = None"
  by (induction d) auto

lemma od_setitem_after_move:
  "od_setitem (filter (\<lambda>p. fst p \<noteq> k) d @ [(k, v')]) k v = filter (\<lambda>p. fst p \<noteq> k) d @ [(k, v)]"
proof -
  have "map (\<lambda>p. if fst p = k then (k, v) else p) (filter (\<lambda>p. fst p \<noteq> k) d) = filter (\<lambda>p. fst p \<noteq> k) d"
    by (rule map_idI) simp
  then show ?thesis by (simp add: od_setitem_def)
qed

lemma od_delitem_absent: "k \<notin> set (map fst d) \<Longrightarrow> od_delitem d k = d"
  by (induction d) (auto simp: od_delitem_def)

lemma TTLCache_set_eq:
  "TTLCache_set c k v now =
     evict_loop (c\<lparr>cache := od_delitem (cache c) k @ [(k, v)], timestamps := (timestamps c)(k \<mapsto> now)\<rparr>)"
proof (cases "od_contains (cache c) k")
  case True
  then obtain v' where v': "map_of (cache c) k = Some v'"
    using map_of_eq_None_keys[of "cache c" k] by (auto simp: od_contains_def)
  show ?thesis
    using True
    by (simp add: TTLCache_set_def od_move_to_end_def v' od_setitem_after_move od_delitem_def)
next
  case False
  then have nk: "k \<notin> set (map fst (cache c))" by (simp add: od_contains_def)
  show ?thesis
    using False nk
    by (simp add: TTLCache_set_def od_delitem_absent od_setitem_def)
qed

lemma TTLCache_get_eq:
  assumes "cache_inv c"
  shows "TTLCache_get c k now =
     (case map_of (cache c) k of
        None \<Rightarrow> (Inr None, c)
      | Some v \<Rightarrow>
          if now - the (timestamps c k) > real_of_int (ttl c) then
            (Inr None, c\<lparr>cache := od_delitem (cache c) k, timestamps := (timestamps c)(k := None)\<rparr>)
          else (Inr (Some v), c\<lparr>cache := od_delitem (cache c) k @ [(k, v)]\<rparr>))"
proof (cases "map_of (cache c) k")
  case None
  then show ?thesis
    using map_of_eq_None_keys[of "cache c" k] by (simp add: TTLCache_get_def od_contains_def)
next
  case (Some v)
  then have mem: "k \<in> set (map fst (cache c))"
    using map_of_eq_None_keys[of "cache c" k] by auto
  with assms obtain ts where ts: "timestamps c k = Some ts"
    by (auto simp: cache_inv_def)
  have look: "([k \<mapsto> v] ++ map_of (filter (\<lambda>p. fst p \<noteq> k) (cache c))) k = Some v"
    by (simp add: map_add_Some_iff map_of_filter_other)
  show ?thesis
    using mem
    by (simp add: TTLCache_get_def od_contains_def ts Some od_move_to_end_def od_getitem_def
        look od_delitem_def)
qed

lemma od_delitem_keys: "set (map fst (od_delitem d k)) = set (map fst d) - {k}"
  by (auto simp: od_delitem_def)

lemma od_delitem_keys_image: "fst ` set (od_delitem d k) = fst ` set d - {k}"
  using od_delitem_keys[of d k] by simp

lemma od_delitem_distinct: "distinct (map fst d) \<Longrightarrow> distinct (map fst (od_delitem d k))"
  by (simp add: od_delitem_def distinct_map_filter)

lemma distinct_take_drop_keys:
  "distinct (map fst xs) \<Longrightarrow> set (map fst (drop n xs)) = set (map fst xs) - set (map fst (take n xs))"
proof -
  assume d: "distinct (map fst xs)"
  have "map fst xs = map fst (take n xs) @ map fst (drop n xs)"
    by (simp flip: map_append)
  with d have "distinct (map fst (take n xs) @ map fst (drop n xs))" by simp
  then have "set (map fst (take n xs)) \<inter> set (map fst (drop n xs)) = {}" by simp
  moreover have "set (map fst xs) = set (map fst (take n xs)) \<union> set (map fst (drop n xs))"
    by (metis append_take_drop_id map_append set_append)
  ultimately show ?thesis by blast
qed

lemma TTLCache_set_result:
  assumes "1 \<le> max_size c"
  shows "TTLCache_set c k v now =
     (Inr (), c\<lparr>cache := drop (Suc (length (od_delitem (cache c) k)) - nat (max_size c)) (od_delitem (cache c) k) @ [(k, v)],
               timestamps := ((timestamps c)(k \<mapsto> now)) |`
                  (- set (map fst (take (Suc (length (od_delitem (cache c) k)) - nat (max_size c)) (od_delitem (cache c) k))))\<rparr>)"
proof -
  let ?xs = "od_delitem (cache c) k"
  let ?n = "Suc (length ?xs) - nat (max_size c)"
  let ?c0 = "c\<lparr>cache := ?xs @ [(k, v)], timestamps := (timestamps c)(k \<mapsto> now)\<rparr>"
  have n: "?n \<le> length ?xs" using assms by linarith
  have "TTLCache_set c k v now = evict_loop ?c0" by (rule TTLCache_set_eq)
  also have "\<dots> = (Inr (), ?c0\<lparr>cache := drop (length (cache ?c0) - nat (max_size ?c0)) (cache ?c0),
               timestamps := timestamps ?c0 |` (- set (map fst (take (length (cache ?c0) - nat (max_size ?c0)) (cache ?c0))))\<rparr>)"
    by (rule evict_loop_eq) (use assms in simp)
  also have "\<dots> = (Inr (), c\<lparr>cache := drop ?n ?xs @ [(k, v)],
               timestamps := ((timestamps c)(k \<mapsto> now)) |` (- set (map fst (take ?n ?xs)))\<rparr>)"
    using n by simp
  finally show ?thesis .
qed

lemma TTLCache_set_inv:
  assumes "cache_inv c" "1 \<le> max_size c"
  shows "cache_inv (snd (TTLCache_set c k v now))"
proof -
  let ?xs = "od_delitem (cache c) k"
  let ?n = "Suc (length ?xs) - nat (max_size c)"
  have d: "distinct (map fst ?xs)" using assms(1) by (simp add: cache_inv_def od_delitem_distinct)
  have nk: "k \<notin> set (map fst ?xs)" unfolding od_delitem_keys by simp
  have sub: "set (map fst (drop ?n ?xs)) \<subseteq> set (map fst ?xs)"
    using set_drop_subset[of ?n "map fst ?xs"] by (simp add: drop_map)
  have dd: "distinct (map fst (drop ?n ?xs))"
    using d distinct_drop[of "map fst ?xs" ?n] by (simp add: drop_map)
  have tk: "set (map fst (take ?n ?xs)) \<subseteq> set (map fst ?xs)"
    using set_take_subset[of ?n "map fst ?xs"] by (simp add: take_map)
  have dom0: "dom (timestamps c) = set (map fst (cache c))" using assms(1) by (simp add: cache_inv_def)
  have "dom (((timestamps c)(k \<mapsto> now)) |` (- set (map fst (take ?n ?xs))))
      = insert k (set (map fst (cache c))) - set (map fst (take ?n ?xs))"
    unfolding dom_restrict dom0[symmetric] by auto
  also have "\<dots> = insert k (set (map fst ?xs) - set (map fst (take ?n ?xs)))"
    using tk od_delitem_keys[of "cache c" k] by blast
  also have "\<dots> = insert k (set (map fst (drop ?n ?xs)))"
    by (simp only: distinct_take_drop_keys[OF d])
  finally have dom1: "dom (((timestamps c)(k \<mapsto> now)) |` (- set (map fst (take ?n ?xs))))
      = insert k (set (map fst (drop ?n ?xs)))" .
  show ?thesis
    unfolding TTLCache_set_result[OF assms(2)] cache_inv_def
    using dd nk sub dom1 by auto
qed


lemma TTLCache_set_entry:
  assumes "1 \<le> max_size c"
  shows "fst (TTLCache_set c k v now) = Inr ()"
    and "map_of (cache (snd (TTLCache_set c k v now))) k = Some v"
    and "timestamps (snd (TTLCache_set c k v now)) k = Some now"
    and "ttl (snd (TTLCache_set c k v now)) = ttl c"
    and "max_size (snd (TTLCache_set c k v now)) = max_size c"
proof -
  let ?xs = "od_delitem (cache c) k"
  let ?n = "Suc (length ?xs) - nat (max_size c)"
  have nk: "k \<notin> set (map fst ?xs)" unfolding od_delitem_keys by simp
  have tk: "set (map fst (take ?n ?xs)) \<subseteq> set (map fst ?xs)"
    using set_take_subset[of ?n "map fst ?xs"] by (simp add: take_map)
  have dk: "set (map fst (drop ?n ?xs)) \<subseteq> set (map fst ?xs)"
    using set_drop_subset[of ?n "map fst ?xs"] by (simp add: drop_map)
  have none: "map_of (drop ?n ?xs) k = None"
    using nk dk unfolding map_of_eq_None_keys by blast
  show "fst (TTLCache_set c k v now) = Inr ()"
    unfolding TTLCache_set_result[OF assms] by simp
  show "map_of (cache (snd (TTLCache_set c k v now))) k = Some v"
    unfolding TTLCache_set_result[OF assms] using none by (simp add: map_add_Some_iff)
  show "timestamps (snd (TTLCache_set c k v now)) k = Some now"
    unfolding TTLCache_set_result[OF assms] using nk tk by (auto simp: restrict_map_def)
  show "ttl (snd (TTLCache_set c k v now)) = ttl c"
    unfolding TTLCache_set_result[OF assms] by simp
  show "max_size (snd (TTLCache_set c k v now)) = max_size c"
    unfolding TTLCache_set_result[OF assms] by simp
qed

lemma TTLCache_get_inv:
  assumes "cache_inv c"
  shows "cache_inv (snd (TTLCache_get c k now))"
proof (cases "map_of (cache c) k")
  case None
  then show ?thesis using assms by (simp add: TTLCache_get_eq[OF assms])
next
  case (Some v)
  then have mem: "k \<in> set (map fst (cache c))"
    using map_of_eq_None_keys[of "cache c" k] by auto
  have d: "distinct (map fst (od_delitem (cache c) k))"
    using assms by (simp add: cache_inv_def od_delitem_distinct)
  have keys: "set (map fst (od_delitem (cache c) k)) = set (map fst (cache c)) - {k}"
    by (rule od_delitem_keys)
  have dom0: "dom (timestamps c) = set (map fst (cache c))"
    using assms by (simp add: cache_inv_def)
  have expired: "cache_inv (c\<lparr>cache := od_delitem (cache c) k, timestamps := (timestamps c)(k := None)\<rparr>)"
    unfolding cache_inv_def using d keys dom0 by simp
  have hit: "cache_inv (c\<lparr>cache := od_delitem (cache c) k @ [(k, v)]\<rparr>)"
    unfolding cache_inv_def using d keys dom0 mem by auto
  show ?thesis
    using expired hit by (simp add: TTLCache_get_eq[OF assms] Some)
qed

lemma TTLCache_get_expired:
  assumes inv: "cache_inv c" and res: "od_contains (cache c) k"
    and ts: "timestamps c k = Some ts" and old: "now - ts > real_of_int (ttl c)"
  shows "TTLCache_get c k now =
    (Inr None, c\<lparr>cache := od_delitem (cache c) k, timestamps := (timestamps c)(k := None)\<rparr>)"
  using res ts old by (simp add: TTLCache_get_def)

lemma TTLCache_get_absent:
  "\<not> od_contains (cache c) k \<Longrightarrow> TTLCache_get c k now = (Inr None, c)"
  by (simp add: TTLCache_get_def)

text \<open>
  Claim C1. On a cache of capacity at least one, \<open>set(k, v)\<close> at time \<open>t0\<close> returns, and
  a \<open>get(k)\<close> that follows it at a time \<open>t1\<close> with \<open>t1 - t0 \<le> ttl\<close> (so in particular
  with less than \<open>ttl\<close> seconds elapsed) returns exactly \<open>v\<close>; at a time with
  \<open>t1 - t0 > ttl\<close> it returns \<open>None\<close>. For any resident entry whose age exceeds the
  TTL, \<open>get\<close> returns \<open>None\<close> and removes the entry from both dictionaries, so every
  later \<open>get\<close> of that key, at any time, returns \<open>None\<close> and changes nothing.
\<close>

theorem TTLCache_get_after_set:
  assumes "cache_inv c"
  shows "(1 \<le> max_size c \<longrightarrow>
            fst (TTLCache_set c k v t0) = Inr () \<and>
            cache_inv (snd (TTLCache_set c k v t0)) \<and>
            (\<forall>t1. t1 - t0 \<le> real_of_int (ttl c) \<longrightarrow>
                  fst (TTLCache_get (snd (TTLCache_set c k v t0)) k t1) = Inr (Some v)) \<and>
            (\<forall>t1. t1 - t0 > real_of_int (ttl c) \<longrightarrow>
                  fst (TTLCache_get (snd (TTLCache_set c k v t0)) k t1) = Inr None))
       \<and> (\<forall>ts now. od_contains (cache c) k \<and> timestamps c k = Some ts \<and>
                   now - ts > real_of_int (ttl c) \<longrightarrow>
             fst (TTLCache_get c k now) = Inr None \<and>
             \<not> od_contains (cache (snd (TTLCache_get c k now))) k \<and>
             timestamps (snd (TTLCache_get c k now)) k = None \<and>
             cache_inv (snd (TTLCache_get c k now)) \<and>
             (\<forall>later. TTLCache_get (snd (TTLCache_get c k now)) k later =
                        (Inr None, snd (TTLCache_get c k now))))"
proof (intro conjI impI allI)
  assume m: "1 \<le> max_size c"
  let ?c1 = "snd (TTLCache_set c k v t0)"
  note e = TTLCache_set_entry[OF m, of k v t0]
  show "fst (TTLCache_set c k v t0) = Inr ()" by (rule e(1))
  show inv1: "cache_inv ?c1" by (rule TTLCache_set_inv[OF assms m])
  show "fst (TTLCache_get ?c1 k t1) = Inr (Some v)" if "t1 - t0 \<le> real_of_int (ttl c)" for t1
    using that by (simp add: TTLCache_get_eq[OF inv1] e)
  show "fst (TTLCache_get ?c1 k t1) = Inr None" if "t1 - t0 > real_of_int (ttl c)" for t1
    using that by (simp add: TTLCache_get_eq[OF inv1] e)
next
  fix ts now
  assume h: "od_contains (cache c) k \<and> timestamps c k = Some ts \<and> now - ts > real_of_int (ttl c)"
  let ?c2 = "c\<lparr>cache := od_delitem (cache c) k, timestamps := (timestamps c)(k := None)\<rparr>"
  have g: "TTLCache_get c k now = (Inr None, ?c2)"
    using h assms by (simp add: TTLCache_get_expired)
  have gone: "\<not> od_contains (cache ?c2) k"
    unfolding od_contains_def using od_delitem_keys[of "cache c" k] by simp
  show "fst (TTLCache_get c k now) = Inr None" by (simp add: g)
  show "\<not> od_contains (cache (snd (TTLCache_get c k now))) k" using gone by (simp add: g)
  show "timestamps (snd (TTLCache_get c k now)) k = None" by (simp add: g)
  show "cache_inv (snd (TTLCache_get c k now))" by (rule TTLCache_get_inv[OF assms])
  show "TTLCache_get (snd (TTLCache_get c k now)) k later = (Inr None, snd (TTLCache_get c k now))" for later
    unfolding g snd_conv by (rule TTLCache_get_absent[OF gone])
qed

theorem TTLCache_get_after_set_witness:
  "cache_inv (TTLCache_init 2 3600 :: (string, string) ttl_cache) \<and>
   1 \<le> max_size (TTLCache_init 2 3600 :: (string, string) ttl_cache) \<and>
   (130 - 100 \<le> real_of_int (ttl (TTLCache_init 2 3600 :: (string, string) ttl_cache))) \<and>
   fst (TTLCache_get (snd (TTLCache_set (TTLCache_init 2 3600) ''hello'' ''bonjour'' 100)) ''hello'' 130)
     = Inr (Some ''bonjour'') \<and>
   (5000 - 100 > real_of_int (ttl (TTLCache_init 2 3600 :: (string, string) ttl_cache))) \<and>
   fst (TTLCache_get (snd (TTLCache_set (TTLCache_init 2 3600) ''hello'' ''bonjour'' 100)) ''hello'' 5000)
     = Inr None \<and>
   cache_inv \<lparr>cache = [(''hello'', ''bonjour'')], timestamps = [''hello'' \<mapsto> 100], max_size = 2, ttl = 3600\<rparr> \<and>
   od_contains (cache \<lparr>cache = [(''hello'', ''bonjour'')], timestamps = [''hello'' \<mapsto> 100], max_size = 2, ttl = 3600\<rparr>) ''hello'' \<and>
   fst (TTLCache_get \<lparr>cache = [(''hello'', ''bonjour'')], timestamps = [''hello'' \<mapsto> 100], max_size = 2, ttl = 3600\<rparr> ''hello'' 5000) = Inr None \<and>
   \<not> od_contains (cache (snd (TTLCache_get \<lparr>cache = [(''hello'', ''bonjour'')], timestamps = [''hello'' \<mapsto> 100], max_size = 2, ttl = 3600\<rparr> ''hello'' 5000))) ''hello''"
proof -
  let ?a = "TTLCache_init 2 3600 :: (string, string) ttl_cache"
  let ?b = "\<lparr>cache = [(''hello'', ''bonjour'')], timestamps = [''hello'' \<mapsto> 100], max_size = 2, ttl = 3600\<rparr> :: (string, string) ttl_cache"
  have ia: "cache_inv ?a" by (simp add: cache_inv_def TTLCache_init_def)
  have ma: "1 \<le> max_size ?a" by (simp add: TTLCache_init_def)
  have ta: "real_of_int (ttl ?a) = 3600" by (simp add: TTLCache_init_def)
  have ib: "cache_inv ?b" by (simp add: cache_inv_def)
  have rb: "od_contains (cache ?b) ''hello''" by (simp add: od_contains_def)
  have hb: "od_contains (cache ?b) ''hello'' \<and> timestamps ?b ''hello'' = Some 100 \<and>
              5000 - 100 > real_of_int (ttl ?b)" by (simp add: od_contains_def)
  from TTLCache_get_after_set[OF ia, of "''hello''" "''bonjour''" 100] ma
  have a1: "\<forall>t1. t1 - 100 \<le> real_of_int (ttl ?a) \<longrightarrow>
           fst (TTLCache_get (snd (TTLCache_set ?a ''hello'' ''bonjour'' 100)) ''hello'' t1) = Inr (Some ''bonjour'')"
    and a2: "\<forall>t1. t1 - 100 > real_of_int (ttl ?a) \<longrightarrow>
           fst (TTLCache_get (snd (TTLCache_set ?a ''hello'' ''bonjour'' 100)) ''hello'' t1) = Inr None"
    by blast+
  have a1': "fst (TTLCache_get (snd (TTLCache_set ?a ''hello'' ''bonjour'' 100)) ''hello'' 130) = Inr (Some ''bonjour'')"
    using a1[rule_format, of 130] ta by simp
  have a2': "fst (TTLCache_get (snd (TTLCache_set ?a ''hello'' ''bonjour'' 100)) ''hello'' 5000) = Inr None"
    using a2[rule_format, of 5000] ta by simp
  from TTLCache_get_after_set[OF ib, of "''hello''"] hb
  have b1: "fst (TTLCache_get ?b ''hello'' 5000) = Inr None \<and>
            \<not> od_contains (cache (snd (TTLCache_get ?b ''hello'' 5000))) ''hello''"
    by blast
  show ?thesis using ia ma ta a1' a2' ib rb b1 by simp
qed

lemma lru_ordered_distinct: "lru_ordered ks h \<Longrightarrow> distinct ks"
  unfolding lru_ordered_def by (metis distinct_filter distinct_remdups)

lemma lru_ordered_sub:
  assumes "lru_ordered ks h" and "ks' = filter P ks"
  shows "lru_ordered ks' h"
proof -
  have "ks' = filter P (filter (\<lambda>k. k \<in> set ks) (remdups h))"
    using assms unfolding lru_ordered_def by simp
  also have "\<dots> = filter (\<lambda>k. k \<in> set ks') (remdups h)"
    unfolding filter_filter using assms(2) by (intro filter_cong) auto
  finally show ?thesis unfolding lru_ordered_def .
qed

lemma distinct_filter_drop:
  "distinct ks \<Longrightarrow> filter (\<lambda>x. x \<in> set (drop n ks)) ks = drop n ks"
proof (induction ks arbitrary: n)
  case Nil
  then show ?case by simp
next
  case (Cons a ks)
  show ?case
  proof (cases n)
    case 0
    then show ?thesis by simp
  next
    case (Suc m)
    have "a \<notin> set (drop m ks)" using Cons.prems by (auto dest: in_set_dropD)
    then show ?thesis using Cons Suc by simp
  qed
qed

lemma lru_ordered_drop:
  assumes "lru_ordered ks h"
  shows "lru_ordered (drop n ks) h"
  using lru_ordered_sub[OF assms, of "drop n ks" "\<lambda>x. x \<in> set (drop n ks)"]
    distinct_filter_drop[OF lru_ordered_distinct[OF assms], of n] by simp

lemma remdups_snoc: "remdups (h @ [k]) = filter (\<lambda>x. x \<noteq> k) (remdups h) @ [k]"
  by (induction h) auto

lemma lru_ordered_touch:
  assumes "lru_ordered ks h" and "k \<notin> set ks"
  shows "lru_ordered (ks @ [k]) (h @ [k])"
proof -
  have "filter (\<lambda>x. x \<in> set (ks @ [k])) (remdups (h @ [k]))
      = filter (\<lambda>x. x \<in> set ks) (remdups h) @ [k]"
    unfolding remdups_snoc using assms(2) by (auto intro!: filter_cong)
  also have "\<dots> = ks @ [k]" using assms(1) unfolding lru_ordered_def by simp
  finally show ?thesis unfolding lru_ordered_def by simp
qed


lemma keys_od_delitem: "map fst (od_delitem d k) = filter (\<lambda>x. x \<noteq> k) (map fst d)"
  by (simp add: od_delitem_def filter_map comp_def)

lemma TTLCache_set_size:
  assumes "0 \<le> max_size c"
  shows "int (length (cache (snd (TTLCache_set c k v now)))) \<le> max_size c"
    and "max_size (snd (TTLCache_set c k v now)) = max_size c"
proof -
  let ?c0 = "c\<lparr>cache := od_delitem (cache c) k @ [(k, v)], timestamps := (timestamps c)(k \<mapsto> now)\<rparr>"
  have m0: "0 \<le> max_size ?c0" using assms by simp
  have eq: "TTLCache_set c k v now = (Inr (), ?c0\<lparr>cache := drop (length (cache ?c0) - nat (max_size ?c0)) (cache ?c0),
               timestamps := timestamps ?c0 |` (- set (map fst (take (length (cache ?c0) - nat (max_size ?c0)) (cache ?c0))))\<rparr>)"
    unfolding TTLCache_set_eq by (rule evict_loop_eq[OF m0])
  show "int (length (cache (snd (TTLCache_set c k v now)))) \<le> max_size c"
    unfolding eq using assms by simp
  show "max_size (snd (TTLCache_set c k v now)) = max_size c"
    unfolding eq by simp
qed

lemma od_move_to_end_length:
  assumes "od_move_to_end d k = Some d'"
  shows "length d' \<le> length d"
proof -
  from assms obtain v where v: "map_of d k = Some v" and d': "d' = filter (\<lambda>p. fst p \<noteq> k) d @ [(k, v)]"
    by (auto simp: od_move_to_end_def split: option.splits)
  have "(k, v) \<in> set d" using v by (rule map_of_SomeD)
  then have "length (filter (\<lambda>p. fst p \<noteq> k) d) < length d"
    by (intro length_filter_less[of "(k, v)"]) auto
  then show ?thesis using d' by simp
qed

lemma TTLCache_get_size:
  shows "length (cache (snd (TTLCache_get c k now))) \<le> length (cache c)"
    and "max_size (snd (TTLCache_get c k now)) = max_size c"
  using od_move_to_end_length[of "cache c" k]
  by (auto simp: TTLCache_get_def od_delitem_def split: option.splits)

lemma apply_op_size:
  assumes "0 \<le> max_size c" and "int (length (cache c)) \<le> max_size c"
  shows "int (length (cache (apply_op c operation))) \<le> max_size c"
    and "max_size (apply_op c operation) = max_size c"
proof -
  show "int (length (cache (apply_op c operation))) \<le> max_size c"
  proof (cases operation)
    case (Get k now)
    then show ?thesis using TTLCache_get_size(1)[of c k now] assms(2) by simp
  next
    case (Set k v now)
    then show ?thesis using TTLCache_set_size(1)[OF assms(1)] by simp
  qed
  show "max_size (apply_op c operation) = max_size c"
    by (cases operation) (simp_all add: TTLCache_get_size TTLCache_set_size[OF assms(1)])
qed

lemma run_size:
  "0 \<le> max_size c \<Longrightarrow> int (length (cache c)) \<le> max_size c \<Longrightarrow>
   int (length (cache (run c ops))) \<le> max_size c \<and> max_size (run c ops) = max_size c"
proof (induction ops arbitrary: c)
  case Nil
  then show ?case by simp
next
  case (Cons operation ops)
  note s = apply_op_size[OF Cons.prems, of operation]
  have "int (length (cache (run (apply_op c operation) ops))) \<le> max_size (apply_op c operation) \<and>
        max_size (run (apply_op c operation) ops) = max_size (apply_op c operation)"
    by (rule Cons.IH) (use s Cons.prems in simp_all)
  then show ?case using s by simp
qed

lemma apply_op_lru:
  assumes inv: "cache_inv c" and m: "1 \<le> max_size c"
    and lru: "lru_ordered (map fst (cache c)) h"
  shows "cache_inv (apply_op c operation)"
    and "max_size (apply_op c operation) = max_size c"
    and "lru_ordered (map fst (cache (apply_op c operation))) (h @ touched c operation)"
proof -
  have del: "lru_ordered (map fst (od_delitem (cache c) k)) h" for k
    using lru_ordered_sub[OF lru] keys_od_delitem[of "cache c" k] by blast
  have nk: "k \<notin> set (map fst (od_delitem (cache c) k))" for k
    unfolding od_delitem_keys by simp
  show "cache_inv (apply_op c operation)"
    by (cases operation) (simp_all add: TTLCache_get_inv[OF inv] TTLCache_set_inv[OF inv m])
  show "max_size (apply_op c operation) = max_size c"
    by (cases operation) (simp_all add: TTLCache_get_size TTLCache_set_entry[OF m])
  show "lru_ordered (map fst (cache (apply_op c operation))) (h @ touched c operation)"
  proof (cases operation)
    case (Set k v now)
    let ?xs = "od_delitem (cache c) k"
    let ?n = "Suc (length ?xs) - nat (max_size c)"
    have nk': "k \<notin> set (drop ?n (map fst ?xs))"
      using nk[of k] by (auto dest: in_set_dropD)
    have "lru_ordered (drop ?n (map fst ?xs) @ [k]) (h @ [k])"
      by (rule lru_ordered_touch[OF lru_ordered_drop[OF del] nk'])
    then show ?thesis
      unfolding Set apply_op.simps touched.simps TTLCache_set_result[OF m]
      by (simp add: drop_map)
  next
    case (Get k now)
    show ?thesis
    proof (cases "map_of (cache c) k")
      case None
      then show ?thesis using lru by (simp add: Get TTLCache_get_eq[OF inv])
    next
      case (Some v)
      have "lru_ordered (map fst (od_delitem (cache c) k) @ [k]) (h @ [k])"
        by (rule lru_ordered_touch[OF del nk])
      then show ?thesis using del[of k] by (simp add: Get TTLCache_get_eq[OF inv] Some)
    qed
  qed
qed

lemma run_lru:
  "cache_inv c \<Longrightarrow> 1 \<le> max_size c \<Longrightarrow> lru_ordered (map fst (cache c)) h \<Longrightarrow>
   cache_inv (run c ops) \<and> lru_ordered (map fst (cache (run c ops))) (h @ touches c ops)"
proof (induction ops arbitrary: c h)
  case Nil
  then show ?case by simp
next
  case (Cons operation ops)
  note s = apply_op_lru[OF Cons.prems, of operation]
  have "cache_inv (run (apply_op c operation) ops) \<and>
        lru_ordered (map fst (cache (run (apply_op c operation) ops)))
          ((h @ touched c operation) @ touches (apply_op c operation) ops)"
    by (rule Cons.IH) (use s Cons.prems in simp_all)
  then show ?case by simp
qed


lemma TTLCache_set_new_key:
  assumes m: "1 \<le> max_size c" and new: "\<not> od_contains (cache c) k"
  shows "int (length (cache c)) < max_size c \<Longrightarrow>
           cache (snd (TTLCache_set c k v now)) = cache c @ [(k, v)]"
    and "int (length (cache c)) = max_size c \<Longrightarrow>
           cache (snd (TTLCache_set c k v now)) = tl (cache c) @ [(k, v)]"
proof -
  have xs: "od_delitem (cache c) k = cache c"
    using new by (simp add: od_contains_def od_delitem_absent)
  show "cache (snd (TTLCache_set c k v now)) = cache c @ [(k, v)]"
    if "int (length (cache c)) < max_size c"
  proof -
    have "Suc (length (cache c)) - nat (max_size c) = 0" using that by linarith
    then show ?thesis unfolding TTLCache_set_result[OF m] xs by simp
  qed
  show "cache (snd (TTLCache_set c k v now)) = tl (cache c) @ [(k, v)]"
    if "int (length (cache c)) = max_size c"
  proof -
    have "Suc (length (cache c)) - nat (max_size c) = 1" using that m by linarith
    then show ?thesis unfolding TTLCache_set_result[OF m] xs by (simp add: drop_Suc)
  qed
qed

lemma od_delitem_length:
  "distinct (map fst d) \<Longrightarrow> k \<in> set (map fst d) \<Longrightarrow> Suc (length (od_delitem d k)) = length d"
proof (induction d)
  case Nil
  then show ?case by simp
next
  case (Cons p d)
  show ?case
  proof (cases "fst p = k")
    case True
    then have "k \<notin> set (map fst d)" using Cons.prems by auto
    then have "od_delitem d k = d" by (rule od_delitem_absent)
    then show ?thesis using True by (simp add: od_delitem_def)
  next
    case False
    then show ?thesis using Cons by (auto simp: od_delitem_def)
  qed
qed

lemma read_then_insert:
  assumes inv: "cache_inv c" and m: "2 \<le> max_size c"
    and full: "int (length (cache c)) = max_size c"
    and a: "map_of (cache c) a = Some va" and ts: "timestamps c a = Some ts"
    and fresh: "t1 - ts \<le> real_of_int (ttl c)"
    and b: "\<not> od_contains (cache c) b"
  shows "cache (run c [Get a t1, Set b v t2]) = tl (od_delitem (cache c) a) @ [(a, va), (b, v)]"
proof -
  let ?c1 = "snd (TTLCache_get c a t1)"
  have mem: "a \<in> set (map fst (cache c))"
    using a map_of_eq_None_keys[of "cache c" a] by auto
  have c1: "?c1 = c\<lparr>cache := od_delitem (cache c) a @ [(a, va)]\<rparr>"
    using fresh by (simp add: TTLCache_get_eq[OF inv] a ts)
  have len: "Suc (length (od_delitem (cache c) a)) = length (cache c)"
    using inv mem by (intro od_delitem_length) (simp_all add: cache_inv_def)
  have ne: "od_delitem (cache c) a \<noteq> []" using len full m by auto
  have ab: "a \<noteq> b" using mem b by (auto simp: od_contains_def)
  have b1: "\<not> od_contains (cache ?c1) b"
    using b ab od_delitem_keys[of "cache c" a] unfolding c1 od_contains_def by simp
  have m1: "1 \<le> max_size ?c1" using m unfolding c1 by simp
  have full1: "int (length (cache ?c1)) = max_size ?c1" using len full unfolding c1 by simp
  have "cache (run c [Get a t1, Set b v t2]) = cache (snd (TTLCache_set ?c1 b v t2))"
    by simp
  also have "\<dots> = tl (cache ?c1) @ [(b, v)]"
    by (rule TTLCache_set_new_key(2)[OF m1 b1 full1])
  also have "\<dots> = tl (od_delitem (cache c) a) @ [(a, va), (b, v)]"
    using ne by (simp add: c1)
  finally show ?thesis .
qed


text \<open>
  Claim C2. A run of \<open>get\<close> and \<open>set\<close> calls never leaves more than \<open>max_size\<close>
  entries resident (for a capacity that is not negative and a cache within capacity at the
  start, such as a new one). On a new cache of capacity at least one, the resident keys
  are always held in LRU order of the touches made so far (a \<open>set\<close>, or a \<open>get\<close> that
  returned a value), least recently used first. Inserting a new key into a full cache drops
  exactly the first entry of that order. In particular, on a full cache, reading a resident,
  unexpired key \<open>a\<close> and then inserting a new key \<open>b\<close> keeps \<open>a\<close> and drops the
  first entry among the others.
\<close>

theorem TTLCache_bounded_lru:
  "(0 \<le> max_size c \<and> int (TTLCache_len c) \<le> max_size c \<longrightarrow>
      int (TTLCache_len (run c ops)) \<le> max_size c \<and> max_size (run c ops) = max_size c)
   \<and> (1 \<le> m \<longrightarrow>
        cache_inv (run (TTLCache_init m t) ops) \<and>
        lru_ordered (map fst (cache (run (TTLCache_init m t) ops))) (touches (TTLCache_init m t) ops))
   \<and> (cache_inv c \<and> 1 \<le> max_size c \<and> int (TTLCache_len c) = max_size c \<and>
        \<not> od_contains (cache c) k \<longrightarrow>
        cache (snd (TTLCache_set c k v now)) = tl (cache c) @ [(k, v)])
   \<and> (cache_inv c \<and> 2 \<le> max_size c \<and> int (TTLCache_len c) = max_size c \<and>
        od_getitem (cache c) a = Some va \<and> timestamps c a = Some ts \<and>
        t1 - ts \<le> real_of_int (ttl c) \<and> \<not> od_contains (cache c) b \<longrightarrow>
        cache (run c [Get a t1, Set b vb t2]) = tl (od_delitem (cache c) a) @ [(a, va), (b, vb)])"
proof (intro conjI impI)
  assume "0 \<le> max_size c \<and> int (TTLCache_len c) \<le> max_size c"
  then have "int (length (cache (run c ops))) \<le> max_size c \<and> max_size (run c ops) = max_size c"
    by (intro run_size) (simp_all add: TTLCache_len_def)
  then show "int (TTLCache_len (run c ops)) \<le> max_size c" and "max_size (run c ops) = max_size c"
    by (simp_all add: TTLCache_len_def)
next
  assume m: "1 \<le> m"
  let ?c0 = "TTLCache_init m t :: ('a, 'b) ttl_cache"
  have "cache_inv (run ?c0 ops) \<and> lru_ordered (map fst (cache (run ?c0 ops))) ([] @ touches ?c0 ops)"
    by (rule run_lru) (use m in \<open>simp_all add: TTLCache_init_def cache_inv_def lru_ordered_def\<close>)
  then show "cache_inv (run ?c0 ops)"
    and "lru_ordered (map fst (cache (run ?c0 ops))) (touches ?c0 ops)"
    by simp_all
next
  assume "cache_inv c \<and> 1 \<le> max_size c \<and> int (TTLCache_len c) = max_size c \<and>
          \<not> od_contains (cache c) k"
  then show "cache (snd (TTLCache_set c k v now)) = tl (cache c) @ [(k, v)]"
    by (intro TTLCache_set_new_key(2)) (simp_all add: TTLCache_len_def)
next
  assume "cache_inv c \<and> 2 \<le> max_size c \<and> int (TTLCache_len c) = max_size c \<and>
        od_getitem (cache c) a = Some va \<and> timestamps c a = Some ts \<and>
        t1 - ts \<le> real_of_int (ttl c) \<and> \<not> od_contains (cache c) b"
  then show "cache (run c [Get a t1, Set b vb t2]) = tl (od_delitem (cache c) a) @ [(a, va), (b, vb)]"
    by (intro read_then_insert[where ts = ts]) (simp_all add: TTLCache_len_def od_getitem_def)
qed

theorem TTLCache_bounded_lru_witness:
  "cache_inv \<lparr>cache = [(''a'', ''1''), (''b'', ''2'')], timestamps = [''a'' \<mapsto> 0, ''b'' \<mapsto> 1],
              max_size = 2, ttl = 3600\<rparr> \<and>
   (2::int) \<le> 2 \<and>
   int (TTLCache_len \<lparr>cache = [(''a'', ''1''), (''b'', ''2'')], timestamps = [''a'' \<mapsto> 0, ''b'' \<mapsto> 1],
              max_size = 2, ttl = 3600\<rparr>) = 2 \<and>
   od_getitem [(''a'', ''1''), (''b'', ''2'')] ''a'' = Some ''1'' \<and>
   (2 - 0 \<le> real_of_int 3600) \<and>
   \<not> od_contains [(''a'', ''1''), (''b'', ''2'')] ''c'' \<and>
   cache (run \<lparr>cache = [(''a'', ''1''), (''b'', ''2'')], timestamps = [''a'' \<mapsto> 0, ''b'' \<mapsto> 1],
              max_size = 2, ttl = 3600\<rparr> [Get ''a'' 2, Set ''c'' ''3'' 3])
     = [(''a'', ''1''), (''c'', ''3'')] \<and>
   int (TTLCache_len (run \<lparr>cache = [(''a'', ''1''), (''b'', ''2'')], timestamps = [''a'' \<mapsto> 0, ''b'' \<mapsto> 1],
              max_size = 2, ttl = 3600\<rparr> [Get ''a'' 2, Set ''c'' ''3'' 3])) \<le> 2 \<and>
   cache (snd (TTLCache_set \<lparr>cache = [(''a'', ''1''), (''b'', ''2'')], timestamps = [''a'' \<mapsto> 0, ''b'' \<mapsto> 1],
              max_size = 2, ttl = 3600\<rparr> ''c'' ''3'' 3))
     = [(''b'', ''2''), (''c'', ''3'')] \<and>
   lru_ordered
     (map fst (cache (run (TTLCache_init 2 3600)
        [Set ''a'' ''1'' 0, Set ''b'' ''2'' 1, Get ''a'' 2, Set ''c'' ''3'' 3])))
     (touches (TTLCache_init 2 3600) [Set ''a'' ''1'' 0, Set ''b'' ''2'' 1, Get ''a'' 2, Set ''c'' ''3'' 3])"
proof -
  let ?c = "\<lparr>cache = [(''a'', ''1''), (''b'', ''2'')], timestamps = [''a'' \<mapsto> 0, ''b'' \<mapsto> 1],
              max_size = 2, ttl = 3600\<rparr> :: (string, string) ttl_cache"
  let ?ops = "[Set ''a'' ''1'' 0, Set ''b'' ''2'' 1, Get ''a'' 2, Set ''c'' ''3'' 3] :: (string, string) cache_op list"
  have inv: "cache_inv ?c" by (auto simp: cache_inv_def)
  have len: "int (TTLCache_len ?c) = 2" by (simp add: TTLCache_len_def)
  have a: "od_getitem (cache ?c) ''a'' = Some ''1''" by (simp add: od_getitem_def)
  have c: "\<not> od_contains (cache ?c) ''c''" by (simp add: od_contains_def)
  note th = TTLCache_bounded_lru[where c = ?c and ops = "[Get ''a'' 2, Set ''c'' ''3'' 3]"
      and k = "''c''" and v = "''3''" and now = 3 and a = "''a''" and va = "''1''" and ts = 0
      and ?t1.0 = 2 and b = "''c''" and vb = "''3''" and ?t2.0 = 3]
  note th' = TTLCache_bounded_lru[where m = 2 and t = 3600 and ops = ?ops and 'a = string and 'b = string]
  from th inv len
  have size: "int (TTLCache_len (run ?c [Get ''a'' 2, Set ''c'' ''3'' 3])) \<le> 2" by simp
  from th' have lru: "lru_ordered (map fst (cache (run (TTLCache_init 2 3600) ?ops)))
      (touches (TTLCache_init 2 3600) ?ops)" by simp
  from th inv len c
  have ev: "cache (snd (TTLCache_set ?c ''c'' ''3'' 3)) = tl (cache ?c) @ [(''c'', ''3'')]" by simp
  from th inv len a c
  have sc: "cache (run ?c [Get ''a'' 2, Set ''c'' ''3'' 3])
      = tl (od_delitem (cache ?c) ''a'') @ [(''a'', ''1''), (''c'', ''3'')]" by simp
  show ?thesis
    using inv len a c size lru ev sc by (simp add: od_delitem_def)
qed

section \<open>Properties of the rate limiter\<close>

lemma dd_getitem_again [simp]: "fst (dd_getitem dflt (snd (dd_getitem dflt d k)) k') = fst (dd_getitem dflt d k')"
  by (auto simp: dd_getitem_def split: option.splits)

lemma dd_getitem_upd [simp]:
  "fst (dd_getitem dflt (d(k \<mapsto> v)) k') = (if k' = k then v else fst (dd_getitem dflt d k'))"
  by (auto simp: dd_getitem_def split: option.splits)

lemma check_rate_limit_result:
  "fst (check_rate_limit cfg now u s) =
     (if now - last_accepted s u < real_of_int (COOLDOWN_SECONDS cfg) then (False, ''cooldown'')
      else if int (length (filter (\<lambda>ts. ts > now - 3600) (recorded s u))) \<ge> MAX_TRANSLATIONS_PER_HOUR cfg
           then (False, ''hour limit'')
           else (True, ''''))"
  by (simp add: check_rate_limit_def last_accepted_def recorded_def dd_getitem_def Let_def
      split: option.splits prod.splits)

lemma check_rate_limit_state:
  fixes cfg now u s
  defines "s' \<equiv> snd (check_rate_limit cfg now u s)"
  shows "translation_cache s' = translation_cache s"
    and "effects s' = effects s"
    and "last_accepted s' x = last_accepted s x"
    and "recorded s' x =
          (if x = u \<and> \<not> now - last_accepted s u < real_of_int (COOLDOWN_SECONDS cfg)
           then filter (\<lambda>ts. ts > now - 3600) (recorded s u) else recorded s x)"
    and "stats s' = (stats s)\<lparr>rate_limit_blocks :=
           rate_limit_blocks (stats s) + (if fst (fst (check_rate_limit cfg now u s)) then 0 else 1)\<rparr>"
  unfolding s'_def
  by (auto simp: check_rate_limit_def last_accepted_def recorded_def dd_getitem_def Let_def block_def
      split: option.splits prod.splits)

lemma update_rate_limit_view:
  "last_accepted (update_rate_limit t u s) x = (if x = u then t else last_accepted s x)"
  "recorded (update_rate_limit t u s) x = (if x = u then recorded s u @ [t] else recorded s x)"
  "stats (update_rate_limit t u s) = stats s"
  by (auto simp: update_rate_limit_def last_accepted_def recorded_def dd_getitem_def
      split: option.splits prod.splits)

lemma commits_view:
  "recorded (commits u ts s) u = recorded s u @ ts"
  "last_accepted (commits u ts s) u = (if ts = [] then last_accepted s u else last ts)"
  by (induction ts arbitrary: s) (simp_all add: update_rate_limit_view)

text \<open>
  Claim C3, as the code has it: the reason returned with a quota denial is the string
  \<open>hour limit\<close>. \<open>check_rate_limit\<close> denies with reason \<open>cooldown\<close> iff
  \<open>now - last < COOLDOWN_SECONDS\<close>; otherwise it replaces the user's recorded sequence by
  its entries newer than \<open>now - 3600\<close> and denies with reason \<open>hour limit\<close> iff that
  pruned sequence has at least \<open>MAX_TRANSLATIONS_PER_HOUR\<close> entries; otherwise it allows.
  After as many commits as the quota, all within the last hour, a check past the cooldown
  is denied with \<open>hour limit\<close>; for a user with no earlier records, a later check past the
  cooldown is allowed once the oldest commit is at least an hour old.
\<close>

theorem check_rate_limit_policy:
  "fst (check_rate_limit cfg now u s) =
     (if now - last_accepted s u < real_of_int (COOLDOWN_SECONDS cfg) then (False, ''cooldown'')
      else if int (length (filter (\<lambda>ts. ts > now - 3600) (recorded s u))) \<ge> MAX_TRANSLATIONS_PER_HOUR cfg
           then (False, ''hour limit'')
           else (True, ''''))
   \<and> (\<not> now - last_accepted s u < real_of_int (COOLDOWN_SECONDS cfg) \<longrightarrow>
        recorded (snd (check_rate_limit cfg now u s)) u =
          filter (\<lambda>ts. ts > now - 3600) (recorded s u))
   \<and> (commit_times \<noteq> [] \<and> int (length commit_times) = MAX_TRANSLATIONS_PER_HOUR cfg \<and>
        (\<forall>t \<in> set commit_times. t > now - 3600) \<and>
        \<not> now - last commit_times < real_of_int (COOLDOWN_SECONDS cfg) \<longrightarrow>
        fst (check_rate_limit cfg now u (commits u commit_times s)) = (False, ''hour limit'') \<and>
        (recorded s u = [] \<and> hd commit_times \<le> later - 3600 \<and>
         \<not> later - last commit_times < real_of_int (COOLDOWN_SECONDS cfg) \<longrightarrow>
           fst (check_rate_limit cfg later u
                  (snd (check_rate_limit cfg now u (commits u commit_times s)))) = (True, '''')))"
proof (intro conjI impI)
  show "fst (check_rate_limit cfg now u s) =
     (if now - last_accepted s u < real_of_int (COOLDOWN_SECONDS cfg) then (False, ''cooldown'')
      else if int (length (filter (\<lambda>ts. ts > now - 3600) (recorded s u))) \<ge> MAX_TRANSLATIONS_PER_HOUR cfg
           then (False, ''hour limit'')
           else (True, ''''))"
    by (rule check_rate_limit_result)
next
  assume "\<not> now - last_accepted s u < real_of_int (COOLDOWN_SECONDS cfg)"
  then show "recorded (snd (check_rate_limit cfg now u s)) u =
          filter (\<lambda>ts. ts > now - 3600) (recorded s u)"
    by (simp add: check_rate_limit_state)
next
  assume h: "commit_times \<noteq> [] \<and> int (length commit_times) = MAX_TRANSLATIONS_PER_HOUR cfg \<and>
        (\<forall>t \<in> set commit_times. t > now - 3600) \<and>
        \<not> now - last commit_times < real_of_int (COOLDOWN_SECONDS cfg)"
  let ?s1 = "commits u commit_times s"
  have la: "last_accepted ?s1 u = last commit_times" using h by (simp add: commits_view)
  have rec: "recorded ?s1 u = recorded s u @ commit_times" by (simp add: commits_view)
  have all: "filter (\<lambda>ts. ts > now - 3600) commit_times = commit_times"
    using h by (simp add: filter_id_conv)
  show denied: "fst (check_rate_limit cfg now u ?s1) = (False, ''hour limit'')"
    using h by (simp add: check_rate_limit_result la rec all)
  assume h2: "recorded s u = [] \<and> hd commit_times \<le> later - 3600 \<and>
         \<not> later - last commit_times < real_of_int (COOLDOWN_SECONDS cfg)"
  let ?s2 = "snd (check_rate_limit cfg now u ?s1)"
  have la2: "last_accepted ?s2 u = last commit_times" by (simp add: check_rate_limit_state la)
  have rec2: "recorded ?s2 u = commit_times"
    using h h2 by (simp add: check_rate_limit_state la rec all)
  obtain t0 rest where ct: "commit_times = t0 # rest" using h by (cases commit_times) auto
  have "length (filter (\<lambda>ts. ts > later - 3600) commit_times) \<le> length rest"
    using h2 by (simp add: ct)
  then have "int (length (filter (\<lambda>ts. ts > later - 3600) commit_times)) < MAX_TRANSLATIONS_PER_HOUR cfg"
    using h by (simp add: ct)
  then show "fst (check_rate_limit cfg later u ?s2) = (True, '''')"
    using h2 by (simp add: check_rate_limit_result la2 rec2)
qed

theorem check_rate_limit_policy_witness:
  "[1000, 1030] \<noteq> ([] :: real list) \<and>
   int (length [1000, 1030 :: real]) = MAX_TRANSLATIONS_PER_HOUR \<lparr>COOLDOWN_SECONDS = 30, MAX_TRANSLATIONS_PER_HOUR = 2\<rparr> \<and>
   (1000 :: real) > 1060 - 3600 \<and> (1030 :: real) > 1060 - 3600 \<and>
   \<not> 1060 - last [1000, 1030 :: real] < real_of_int (COOLDOWN_SECONDS \<lparr>COOLDOWN_SECONDS = 30, MAX_TRANSLATIONS_PER_HOUR = 2\<rparr>) \<and>
   recorded initial_state 7 = [] \<and> hd [1000, 1030 :: real] \<le> 4600 - 3600 \<and>
   \<not> 4600 - last [1000, 1030 :: real] < real_of_int (COOLDOWN_SECONDS \<lparr>COOLDOWN_SECONDS = 30, MAX_TRANSLATIONS_PER_HOUR = 2\<rparr>) \<and>
   fst (check_rate_limit \<lparr>COOLDOWN_SECONDS = 30, MAX_TRANSLATIONS_PER_HOUR = 2\<rparr> 1060 7
          (commits 7 [1000, 1030] initial_state)) = (False, ''hour limit'') \<and>
   fst (check_rate_limit \<lparr>COOLDOWN_SECONDS = 30, MAX_TRANSLATIONS_PER_HOUR = 2\<rparr> 4600 7
          (snd (check_rate_limit \<lparr>COOLDOWN_SECONDS = 30, MAX_TRANSLATIONS_PER_HOUR = 2\<rparr> 1060 7
                 (commits 7 [1000, 1030] initial_state)))) = (True, '''') \<and>
   fst (check_rate_limit \<lparr>COOLDOWN_SECONDS = 30, MAX_TRANSLATIONS_PER_HOUR = 2\<rparr> 1040 7
          (commits 7 [1000, 1030] initial_state)) = (False, ''cooldown'')"
proof -
  let ?cfg = "\<lparr>COOLDOWN_SECONDS = 30, MAX_TRANSLATIONS_PER_HOUR = 2\<rparr>"
  have r0: "recorded initial_state 7 = []"
    by (simp add: recorded_def initial_state_def dd_getitem_def)
  have la: "last_accepted (commits 7 [1000, 1030] initial_state) 7 = 1030"
    by (simp add: update_rate_limit_view)
  note th = check_rate_limit_policy[where cfg = ?cfg and now = 1060 and u = 7 and s = initial_state
      and commit_times = "[1000, 1030]" and later = 4600]
  note th' = check_rate_limit_policy[where cfg = ?cfg and now = 1040 and u = 7
      and s = "commits 7 [1000, 1030] initial_state"]
  from th r0 have a: "fst (check_rate_limit ?cfg 1060 7 (commits 7 [1000, 1030] initial_state)) = (False, ''hour limit'')"
    and b: "fst (check_rate_limit ?cfg 4600 7
          (snd (check_rate_limit ?cfg 1060 7 (commits 7 [1000, 1030] initial_state)))) = (True, '''')"
    by simp_all
  from th' la have c: "fst (check_rate_limit ?cfg 1040 7 (commits 7 [1000, 1030] initial_state)) = (False, ''cooldown'')"
    by simp
  show ?thesis using r0 a b c by simp
qed

text \<open>
  With the default configuration, thirty commits thirty seconds apart and a check thirty
  seconds after the last: the pruned count reaches the quota and the check is past the
  cooldown, but the reason returned is not \<open>hourly_quota\<close>.
\<close>

theorem check_rate_limit_reason_counterexample:
  "\<not> 1900 - last_accepted
        (initial_state\<lparr>author_cooldowns := [7 \<mapsto> 1870],
                        author_translation_count := [7 \<mapsto> [1000, 1030, 1060, 1090, 1120, 1150, 1180, 1210, 1240, 1270, 1300, 1330, 1360, 1390, 1420, 1450, 1480, 1510, 1540, 1570, 1600, 1630, 1660, 1690, 1720, 1750, 1780, 1810, 1840, 1870]]\<rparr>) 7
      < real_of_int (COOLDOWN_SECONDS default_config) \<and>
   int (length (filter (\<lambda>ts. ts > 1900 - 3600)
        (recorded (initial_state\<lparr>author_cooldowns := [7 \<mapsto> 1870],
                        author_translation_count := [7 \<mapsto> [1000, 1030, 1060, 1090, 1120, 1150, 1180, 1210, 1240, 1270, 1300, 1330, 1360, 1390, 1420, 1450, 1480, 1510, 1540, 1570, 1600, 1630, 1660, 1690, 1720, 1750, 1780, 1810, 1840, 1870]]\<rparr>) 7)))
      \<ge> MAX_TRANSLATIONS_PER_HOUR default_config \<and>
   fst (check_rate_limit default_config 1900 7
        (initial_state\<lparr>author_cooldowns := [7 \<mapsto> 1870],
                        author_translation_count := [7 \<mapsto> [1000, 1030, 1060, 1090, 1120, 1150, 1180, 1210, 1240, 1270, 1300, 1330, 1360, 1390, 1420, 1450, 1480, 1510, 1540, 1570, 1600, 1630, 1660, 1690, 1720, 1750, 1780, 1810, 1840, 1870]]\<rparr>))
      \<noteq> (False, ''hourly_quota'')"
  by (simp add: check_rate_limit_def last_accepted_def recorded_def dd_getitem_def
      default_config_def initial_state_def block_def)

text \<open>
  Claim C4, as the code has it: \<open>check_rate_limit\<close> leaves the translation cache, the
  record of external calls, every user's last-accepted time and every other user's recorded
  sequence as they read before, and changes no counter but \<open>rate_limit_blocks\<close>, to
  which it adds one exactly when it denies. Unless it denies for the cooldown, it replaces
  the checked user's recorded sequence by its entries newer than \<open>now - 3600\<close>.
\<close>

theorem check_rate_limit_frame:
  "translation_cache (snd (check_rate_limit cfg now u s)) = translation_cache s
   \<and> effects (snd (check_rate_limit cfg now u s)) = effects s
   \<and> (\<forall>x. last_accepted (snd (check_rate_limit cfg now u s)) x = last_accepted s x)
   \<and> (\<forall>x. x \<noteq> u \<longrightarrow> recorded (snd (check_rate_limit cfg now u s)) x = recorded s x)
   \<and> recorded (snd (check_rate_limit cfg now u s)) u =
        (if now - last_accepted s u < real_of_int (COOLDOWN_SECONDS cfg) then recorded s u
         else filter (\<lambda>ts. ts > now - 3600) (recorded s u))
   \<and> stats (snd (check_rate_limit cfg now u s)) =
        (stats s)\<lparr>rate_limit_blocks :=
           rate_limit_blocks (stats s) + (if fst (fst (check_rate_limit cfg now u s)) then 0 else 1)\<rparr>"
  by (simp add: check_rate_limit_state)

theorem check_rate_limit_frame_witness:
  "(8::int) \<noteq> 7 \<and>
   recorded (snd (check_rate_limit default_config 5000 7
      (initial_state\<lparr>author_translation_count := [7 \<mapsto> [1000, 4000], 8 \<mapsto> [1200]]\<rparr>))) 8 = [1200] \<and>
   recorded (snd (check_rate_limit default_config 5000 7
      (initial_state\<lparr>author_translation_count := [7 \<mapsto> [1000, 4000], 8 \<mapsto> [1200]]\<rparr>))) 7 = [4000] \<and>
   stats (snd (check_rate_limit default_config 5000 7
      (initial_state\<lparr>author_translation_count := [7 \<mapsto> [1000, 4000], 8 \<mapsto> [1200]]\<rparr>))) = stats initial_state"
proof -
  let ?s = "initial_state\<lparr>author_translation_count := [7 \<mapsto> [1000, 4000], 8 \<mapsto> [1200]]\<rparr>"
  have la: "last_accepted ?s 7 = 0"
    by (simp add: last_accepted_def initial_state_def dd_getitem_def)
  have r7: "recorded ?s 7 = [1000, 4000]" and r8: "recorded ?s 8 = [1200]"
    by (simp_all add: recorded_def dd_getitem_def)
  have ok: "fst (fst (check_rate_limit default_config 5000 7 ?s))"
    by (simp add: check_rate_limit_result la r7 default_config_def)
  note th = check_rate_limit_frame[where cfg = default_config and now = 5000 and u = 7 and s = ?s]
  from th have "recorded (snd (check_rate_limit default_config 5000 7 ?s)) 8 = recorded ?s 8"
    by simp
  moreover from th have "recorded (snd (check_rate_limit default_config 5000 7 ?s)) 7 = [4000]"
    by (simp add: la r7 default_config_def)
  moreover from th ok have "stats (snd (check_rate_limit default_config 5000 7 ?s)) = stats initial_state"
    by simp
  ultimately show ?thesis using r8 by simp
qed

text \<open>
  A check denied for the cooldown changes a counter, and an allowed check changes the
  stored sequence of the user.
\<close>

theorem check_rate_limit_readonly_counterexample:
  "rate_limit_blocks (stats (snd (check_rate_limit default_config 1010 7
       (initial_state\<lparr>author_cooldowns := [7 \<mapsto> 1000]\<rparr>))))
     \<noteq> rate_limit_blocks (stats (initial_state\<lparr>author_cooldowns := [7 \<mapsto> 1000]\<rparr>))
   \<and> author_translation_count (snd (check_rate_limit default_config 5000 7
       (initial_state\<lparr>author_translation_count := [7 \<mapsto> [1000, 4000]]\<rparr>))) 7
     \<noteq> author_translation_count (initial_state\<lparr>author_translation_count := [7 \<mapsto> [1000, 4000]]\<rparr>) 7"
  by (simp add: check_rate_limit_def dd_getitem_def default_config_def initial_state_def block_def)

section \<open>Properties of the language normalizer\<close>








section \<open>Properties of the message filter\<close>

lemma py_isalpha_not_space: "py_isalpha c \<Longrightarrow> \<not> py_isspace c"
  by (auto simp: py_isalpha_def py_isspace_def Let_def)

lemma py_strip_no_space_ends:
  assumes "s \<noteq> []" "\<not> py_isspace (hd s)" "\<not> py_isspace (last s)"
  shows "py_strip s = s"
proof -
  have a: "dropWhile py_isspace s = s" using assms by (cases s) auto
  have "rev s \<noteq> []" "\<not> py_isspace (hd (rev s))" using assms by (simp_all add: hd_rev)
  then have b: "dropWhile py_isspace (rev s) = rev s" by (cases "rev s") auto
  show ?thesis by (simp add: py_strip_def a b)
qed

lemma py_strip_alpha:
  assumes "\<forall>c \<in> set s. py_isalpha c"
  shows "py_strip s = s"
proof (cases "s = []")
  case True
  then show ?thesis by (simp add: py_strip_def)
next
  case False
  then have "hd s \<in> set s" "last s \<in> set s" by simp_all
  then show ?thesis
    using assms False by (intro py_strip_no_space_ends) (auto dest: py_isalpha_not_space)
qed

lemma py_startswith_subset: "py_startswith s p \<Longrightarrow> set p \<subseteq> set s"
  unfolding py_startswith_def by (metis set_take_subset)

lemma forbidden_prefix_not_alpha:
  "p \<in> set forbidden_prefixes \<Longrightarrow> \<exists>c \<in> set p. \<not> py_isalpha c"
  by (auto simp: forbidden_prefixes_def py_isalpha_def)

lemma alpha_no_forbidden_prefix:
  assumes "\<forall>c \<in> set s. py_isalpha c"
  shows "\<not> list_ex (py_startswith s) forbidden_prefixes"
proof
  assume "list_ex (py_startswith s) forbidden_prefixes"
  then obtain p where p: "p \<in> set forbidden_prefixes" "py_startswith s p"
    by (auto simp: list_ex_iff)
  from forbidden_prefix_not_alpha[OF p(1)] obtain c where "c \<in> set p" "\<not> py_isalpha c" by blast
  with py_startswith_subset[OF p(2)] assms show False by blast
qed

lemma should_translate_iff:
  "should_translate msg \<longleftrightarrow>
     \<not> author_bot msg \<and>
     15 \<le> length (py_strip (content msg)) \<and> length (py_strip (content msg)) \<le> 1500 \<and>
     \<not> (\<exists>p \<in> set [''!'', ''/'', ''http://'', ''https://'', ''<@'', ''<#'', ''<:'', ''```''].
          py_startswith (py_strip (content msg)) p) \<and>
     (\<exists>c \<in> set (py_remove_spaces (py_strip (content msg))). py_isalpha c)"
  by (auto simp: should_translate_def Let_def MIN_MESSAGE_LENGTH_def MAX_MESSAGE_LENGTH_def
      forbidden_prefixes_def list_all_iff)

lemma py_strip_padding:
  assumes l: "\<forall>c \<in> set pad_l. py_isspace c" and r: "\<forall>c \<in> set pad_r. py_isspace c"
  shows "py_strip (pad_l @ s @ pad_r) = py_strip s"
proof -
  have left: "dropWhile py_isspace (pad_l @ s @ pad_r) = dropWhile py_isspace (s @ pad_r)"
    using l by (intro dropWhile_append2) simp
  have rr: "\<forall>c \<in> set (rev pad_r). py_isspace c" using r by simp
  show ?thesis
  proof (cases "\<forall>c \<in> set s. py_isspace c")
    case True
    then have "\<forall>c \<in> set (s @ pad_r). py_isspace c" using r by auto
    then have a: "dropWhile py_isspace (s @ pad_r) = []" by (simp only: dropWhile_eq_Nil_conv)
    have b: "dropWhile py_isspace s = []" using True by (simp only: dropWhile_eq_Nil_conv)
    show ?thesis unfolding py_strip_def left a b by simp
  next
    case False
    then obtain x where x: "x \<in> set s" "\<not> py_isspace x" by blast
    have mid: "dropWhile py_isspace (s @ pad_r) = dropWhile py_isspace s @ pad_r"
      using x by (rule dropWhile_append1)
    have "dropWhile py_isspace (rev (dropWhile py_isspace s @ pad_r))
        = dropWhile py_isspace (rev pad_r @ rev (dropWhile py_isspace s))"
      by simp
    also have "\<dots> = dropWhile py_isspace (rev (dropWhile py_isspace s))"
      using rr by (intro dropWhile_append2) simp
    finally show ?thesis unfolding py_strip_def left mid by simp
  qed
qed

lemma should_translate_padding:
  assumes "\<forall>c \<in> set pad_l. py_isspace c" and "\<forall>c \<in> set pad_r. py_isspace c"
  shows "should_translate (msg\<lparr>content := pad_l @ content msg @ pad_r\<rparr>) = should_translate msg"
  by (simp add: should_translate_def py_strip_padding[OF assms])

text \<open>
  Claim C7, as the code has it: the prefix test compares the stripped text with eight
  literal strings, case-sensitively. \<open>should_translate\<close> is a function of the message
  alone and returns true iff the author is no bot, the stripped text has between 15 and
  1500 characters, it starts with none of \<open>!\<close>, \<open>/\<close>, \<open>http://\<close>, \<open>https://\<close>,
  \<open><@\<close>, \<open><#\<close>, \<open><:\<close> and the code-block marker, and it has an alphabetic
  character once the spaces are removed. So a stripped text of 14 characters is rejected, a
  text of 15 alphabetic characters is accepted, a text starting with \<open>/\<close> is rejected
  whatever its length, a text without any alphabetic character is rejected, and a bot is
  always rejected. White space around the text does not change the answer.
\<close>

theorem should_translate_rules:
  "(should_translate msg \<longleftrightarrow>
      \<not> author_bot msg \<and>
      15 \<le> length (py_strip (content msg)) \<and> length (py_strip (content msg)) \<le> 1500 \<and>
      \<not> (\<exists>p \<in> set [''!'', ''/'', ''http://'', ''https://'', ''<@'', ''<#'', ''<:'', ''```''].
           py_startswith (py_strip (content msg)) p) \<and>
      (\<exists>c \<in> set (py_remove_spaces (py_strip (content msg))). py_isalpha c))
   \<and> (length (py_strip (content msg)) = 14 \<longrightarrow> \<not> should_translate msg)
   \<and> (\<not> author_bot msg \<and> length (content msg) = 15 \<and> (\<forall>c \<in> set (content msg). py_isalpha c) \<longrightarrow>
        should_translate msg)
   \<and> (py_startswith (py_strip (content msg)) ''/'' \<longrightarrow> \<not> should_translate msg)
   \<and> ((\<forall>c \<in> set (py_strip (content msg)). \<not> py_isalpha c) \<longrightarrow> \<not> should_translate msg)
   \<and> (author_bot msg \<longrightarrow> \<not> should_translate msg)
   \<and> ((\<forall>c \<in> set pad_l. py_isspace c) \<and> (\<forall>c \<in> set pad_r. py_isspace c) \<longrightarrow>
        should_translate (msg\<lparr>content := pad_l @ content msg @ pad_r\<rparr>) = should_translate msg)"
proof (intro conjI impI)
  show "should_translate msg \<longleftrightarrow>
      \<not> author_bot msg \<and>
      15 \<le> length (py_strip (content msg)) \<and> length (py_strip (content msg)) \<le> 1500 \<and>
      \<not> (\<exists>p \<in> set [''!'', ''/'', ''http://'', ''https://'', ''<@'', ''<#'', ''<:'', ''```''].
           py_startswith (py_strip (content msg)) p) \<and>
      (\<exists>c \<in> set (py_remove_spaces (py_strip (content msg))). py_isalpha c)"
    by (rule should_translate_iff)
next
  assume "length (py_strip (content msg)) = 14"
  then show "\<not> should_translate msg" by (simp add: should_translate_iff)
next
  assume h: "\<not> author_bot msg \<and> length (content msg) = 15 \<and> (\<forall>c \<in> set (content msg). py_isalpha c)"
  then have alpha: "\<forall>c \<in> set (content msg). py_isalpha c" by simp
  have strip: "py_strip (content msg) = content msg" by (rule py_strip_alpha[OF alpha])
  have ne: "content msg \<noteq> []" using h by auto
  have sp: "CHR '' '' \<notin> set (content msg)"
    using alpha by (auto simp: py_isalpha_def)
  then have rm: "py_remove_spaces (content msg) = content msg"
    by (simp add: py_remove_spaces_def filter_id_conv) metis
  show "should_translate msg"
    using h ne alpha_no_forbidden_prefix[OF alpha]
    by (simp add: should_translate_def Let_def strip rm MIN_MESSAGE_LENGTH_def
        MAX_MESSAGE_LENGTH_def list_all_iff)
next
  assume "py_startswith (py_strip (content msg)) ''/''"
  then show "\<not> should_translate msg" by (simp add: should_translate_iff)
next
  assume "\<forall>c \<in> set (py_strip (content msg)). \<not> py_isalpha c"
  then show "\<not> should_translate msg"
    by (auto simp: should_translate_iff py_remove_spaces_def)
next
  assume "author_bot msg"
  then show "\<not> should_translate msg" by (simp add: should_translate_iff)
next
  assume "(\<forall>c \<in> set pad_l. py_isspace c) \<and> (\<forall>c \<in> set pad_r. py_isspace c)"
  then show "should_translate (msg\<lparr>content := pad_l @ content msg @ pad_r\<rparr>) = should_translate msg"
    by (intro should_translate_padding) simp_all
qed

theorem should_translate_rules_witness:
  "should_translate \<lparr>author_bot = False, author_id = 1, content = ''  Bonjour le monde ''\<rparr> \<and>
   length (py_strip ''abcdefghijklmn'') = 14 \<and>
   \<not> should_translate \<lparr>author_bot = False, author_id = 1, content = ''abcdefghijklmn''\<rparr> \<and>
   length ''abcdefghijklmno'' = 15 \<and>
   should_translate \<lparr>author_bot = False, author_id = 1, content = ''abcdefghijklmno''\<rparr> \<and>
   py_startswith (py_strip ''/translate this sentence'') ''/'' \<and>
   \<not> should_translate \<lparr>author_bot = False, author_id = 1, content = ''/translate this sentence''\<rparr> \<and>
   \<not> should_translate \<lparr>author_bot = False, author_id = 1, content = ''?? ... ?? ... ?? ...''\<rparr> \<and>
   \<not> should_translate \<lparr>author_bot = True, author_id = 1, content = ''Bonjour le monde''\<rparr> \<and>
   py_isspace CHR '' '' \<and>
   \<not> should_translate \<lparr>author_bot = False, author_id = 1, content = ''  abcdefghijklmn ''\<rparr>"
proof -
  have sp: "py_isspace CHR '' ''" by (simp add: py_isspace_def)
  have nsp: "\<not> py_isspace CHR ''B''" "\<not> py_isspace CHR ''e''" "\<not> py_isspace CHR ''a''"
    "\<not> py_isspace CHR ''n''" "\<not> py_isspace CHR ''/''" "\<not> py_isspace CHR ''?''"
    "\<not> py_isspace CHR ''.''"
    by (simp_all add: py_isspace_def)
  have s1: "py_strip ''  Bonjour le monde '' = ''Bonjour le monde''"
    by (simp add: py_strip_def sp nsp)
  have s2: "py_strip ''abcdefghijklmn'' = ''abcdefghijklmn''"
    by (simp add: py_strip_def nsp)
  have s4: "py_strip ''/translate this sentence'' = ''/translate this sentence''"
    by (simp add: py_strip_def nsp)
  have s5: "py_strip ''?? ... ?? ... ?? ...'' = ''?? ... ?? ... ?? ...''"
    by (simp add: py_strip_def nsp)
  have alpha: "\<forall>c \<in> set ''abcdefghijklmno''. py_isalpha c"
    by (simp add: py_isalpha_def)
  have nalpha: "\<forall>c \<in> set ''?? ... ?? ... ?? ...''. \<not> py_isalpha c"
    by (simp add: py_isalpha_def)
  let ?m1 = "\<lparr>author_bot = False, author_id = 1, content = ''  Bonjour le monde ''\<rparr>"
  let ?m2 = "\<lparr>author_bot = False, author_id = 1, content = ''abcdefghijklmn''\<rparr>"
  let ?m3 = "\<lparr>author_bot = False, author_id = 1, content = ''abcdefghijklmno''\<rparr>"
  let ?m4 = "\<lparr>author_bot = False, author_id = 1, content = ''/translate this sentence''\<rparr>"
  let ?m5 = "\<lparr>author_bot = False, author_id = 1, content = ''?? ... ?? ... ?? ...''\<rparr>"
  let ?m6 = "\<lparr>author_bot = True, author_id = 1, content = ''Bonjour le monde''\<rparr>"
  have h1: "\<not> author_bot ?m1 \<and>
      15 \<le> length (py_strip (content ?m1)) \<and> length (py_strip (content ?m1)) \<le> 1500 \<and>
      \<not> (\<exists>p \<in> set [''!'', ''/'', ''http://'', ''https://'', ''<@'', ''<#'', ''<:'', ''```''].
           py_startswith (py_strip (content ?m1)) p) \<and>
      (\<exists>c \<in> set (py_remove_spaces (py_strip (content ?m1))). py_isalpha c)"
    by (simp add: s1 py_startswith_def py_remove_spaces_def py_isalpha_def)
  from should_translate_rules[of ?m1] h1 have a: "should_translate ?m1" by blast
  have h2: "length (py_strip (content ?m2)) = 14" by (simp add: s2)
  from should_translate_rules[of ?m2] h2 have b: "\<not> should_translate ?m2" by blast
  have h3: "\<not> author_bot ?m3 \<and> length (content ?m3) = 15 \<and> (\<forall>c \<in> set (content ?m3). py_isalpha c)"
    using alpha by simp
  from should_translate_rules[of ?m3] h3 have c: "should_translate ?m3" by blast
  have h4: "py_startswith (py_strip (content ?m4)) ''/''" by (simp add: s4 py_startswith_def)
  from should_translate_rules[of ?m4] h4 have d: "\<not> should_translate ?m4" by blast
  have h5: "\<forall>c \<in> set (py_strip (content ?m5)). \<not> py_isalpha c" using nalpha by (simp add: s5)
  from should_translate_rules[of ?m5] h5 have e: "\<not> should_translate ?m5" by blast
  have h6: "author_bot ?m6" by simp
  from should_translate_rules[of ?m6] h6 have f: "\<not> should_translate ?m6" by blast
  have h7: "(\<forall>c \<in> set ''  ''. py_isspace c) \<and> (\<forall>c \<in> set '' ''. py_isspace c)"
    using sp by simp
  from should_translate_rules[where msg = ?m2 and pad_l = "''  ''" and pad_r = "'' ''"] h7
  have "should_translate (?m2\<lparr>content := ''  '' @ content ?m2 @ '' ''\<rparr>) = should_translate ?m2"
    by blast
  with b have g: "\<not> should_translate \<lparr>author_bot = False, author_id = 1, content = ''  abcdefghijklmn ''\<rparr>"
    by simp
  show ?thesis using a b c d e f g sp by (simp add: s2 s4 py_startswith_def)
qed

text \<open>
  Texts that start with a URL scheme or with an emoji token and are accepted: the scheme
  in upper case, a scheme other than \<open>http\<close> and \<open>https\<close>, and the token of an animated
  emoji.
\<close>

theorem should_translate_prefix_counterexample:
  "py_startswith (py_strip ''HTTP://example.com/some/page'') ''HTTP://'' \<and>
   should_translate \<lparr>author_bot = False, author_id = 1, content = ''HTTP://example.com/some/page''\<rparr> \<and>
   py_startswith (py_strip ''ftp://example.com/some/page'') ''ftp://'' \<and>
   should_translate \<lparr>author_bot = False, author_id = 1, content = ''ftp://example.com/some/page''\<rparr> \<and>
   py_startswith (py_strip ''<a:wave:123456789012345678> hello'') ''<a:'' \<and>
   should_translate \<lparr>author_bot = False, author_id = 1,
                      content = ''<a:wave:123456789012345678> hello''\<rparr>"
  by (simp add: should_translate_def py_strip_def py_isspace_def MIN_MESSAGE_LENGTH_def
      MAX_MESSAGE_LENGTH_def forbidden_prefixes_def py_startswith_def py_remove_spaces_def
      py_isalpha_def)


section \<open>Properties of the back-end chain\<close>

lemma TTLCache_set_pair:
  "1 \<le> max_size c \<Longrightarrow> TTLCache_set c k v now = (Inr (), snd (TTLCache_set c k v now))"
  using TTLCache_set_entry(1)[of c k v now] by (simp add: prod_eq_iff)

lemma try_backend_success:
  assumes "1 \<le> max_size (translation_cache s)"
    and "translator w b source_lang target_lang text = Inr r"
  shows "try_backend w b text source_lang target_lang s =
    (Inr r,
     s\<lparr>effects := effects s @ [BackendCall b source_lang target_lang text],
       stats := (stats s)\<lparr>api_calls := api_calls (stats s) + 1\<rparr>,
       translation_cache :=
         snd (TTLCache_set (translation_cache s) (py_strip text, source_lang, target_lang) r
                (clock_set w b target_lang))\<rparr>)"
proof -
  obtain c' where c': "TTLCache_set (translation_cache s) (py_strip text, source_lang, target_lang) r
          (clock_set w b target_lang) = (Inr (), c')"
    using TTLCache_set_pair[OF assms(1)] by blast
  show ?thesis
    using assms(2) by (simp add: try_backend_def Let_def c')
qed

lemma try_backend_failure:
  assumes "translator w b source_lang target_lang text = Inl e"
  shows "try_backend w b text source_lang target_lang s =
    (Inl e, s\<lparr>effects := effects s @ [BackendCall b source_lang target_lang text]\<rparr>)"
  using assms by (simp add: try_backend_def Let_def)

lemma translate_text_lookup:
  assumes "TTLCache_get (translation_cache s) (py_strip text, source_lang, target_lang)
             (clock_get w target_lang) = (Inr cached, c)"
  shows "translate_text w text source_lang target_lang s =
     (if truthy cached then
        (Inr (the cached),
         s\<lparr>translation_cache := c, stats := (stats s)\<lparr>cache_hits := cache_hits (stats s) + 1\<rparr>\<rparr>)
      else
        (case try_backend w MyMemory text source_lang target_lang (s\<lparr>translation_cache := c\<rparr>) of
           (Inr result, s2) \<Rightarrow> (Inr result, s2)
         | (Inl _, s2) \<Rightarrow>
             (case try_backend w Google text source_lang target_lang s2 of
                (Inr result, s3) \<Rightarrow> (Inr result, s3)
              | (Inl e, s3) \<Rightarrow>
                  (Inl e, s3\<lparr>stats := (stats s3)\<lparr>errors := errors (stats s3) + 1\<rparr>\<rparr>))))"
  using assms by (simp add: translate_text_def Let_def)

lemma translate_text_miss:
  assumes get: "TTLCache_get (translation_cache s) (py_strip text, source_lang, target_lang)
             (clock_get w target_lang) = (Inr cached, c)"
    and miss: "\<not> truthy cached"
    and m: "1 \<le> max_size c"
  shows "translate_text w text source_lang target_lang s =
     (case translator w MyMemory source_lang target_lang text of
        Inr r \<Rightarrow>
          (Inr r,
           s\<lparr>effects := effects s @ [BackendCall MyMemory source_lang target_lang text],
             stats := (stats s)\<lparr>api_calls := api_calls (stats s) + 1\<rparr>,
             translation_cache :=
               snd (TTLCache_set c (py_strip text, source_lang, target_lang) r
                      (clock_set w MyMemory target_lang))\<rparr>)
      | Inl e1 \<Rightarrow>
          (case translator w Google source_lang target_lang text of
             Inr r \<Rightarrow>
               (Inr r,
                s\<lparr>effects := effects s @ [BackendCall MyMemory source_lang target_lang text,
                                           BackendCall Google source_lang target_lang text],
                  stats := (stats s)\<lparr>api_calls := api_calls (stats s) + 1\<rparr>,
                  translation_cache :=
                    snd (TTLCache_set c (py_strip text, source_lang, target_lang) r
                           (clock_set w Google target_lang))\<rparr>)
           | Inl e2 \<Rightarrow>
               (Inl e2,
                s\<lparr>effects := effects s @ [BackendCall MyMemory source_lang target_lang text,
                                           BackendCall Google source_lang target_lang text],
                  stats := (stats s)\<lparr>errors := errors (stats s) + 1\<rparr>,
                  translation_cache := c\<rparr>)))"
proof (cases "translator w MyMemory source_lang target_lang text")
  case (Inr r)
  have m': "1 \<le> max_size (translation_cache (s\<lparr>translation_cache := c\<rparr>))" using m by simp
  show ?thesis
    unfolding translate_text_lookup[OF get]
    by (simp add: miss Inr try_backend_success[OF m' Inr])
next
  case (Inl e1)
  let ?s2 = "s\<lparr>translation_cache := c, effects := effects s @ [BackendCall MyMemory source_lang target_lang text]\<rparr>"
  have t1: "try_backend w MyMemory text source_lang target_lang (s\<lparr>translation_cache := c\<rparr>) = (Inl e1, ?s2)"
    by (simp add: try_backend_failure[OF Inl])
  have m2: "1 \<le> max_size (translation_cache ?s2)" using m by simp
  show ?thesis
  proof (cases "translator w Google source_lang target_lang text")
    case (Inr r)
    show ?thesis
      unfolding translate_text_lookup[OF get]
      by (simp add: miss Inl Inr t1 try_backend_success[OF m2 Inr])
  next
    case e2: (Inl e2)
    show ?thesis
      unfolding translate_text_lookup[OF get]
      by (simp add: miss Inl e2 t1 try_backend_failure[OF e2])
  qed
qed

text \<open>
  Claim C5. On a cache miss (the lookup returns \<open>None\<close> or the empty string) with a cache
  of capacity at least one, \<open>translate_text\<close> calls MyMemory first. If MyMemory answers,
  the answer is stored in the cache under the key and returned, \<open>api_calls\<close> grows by one
  and Google is not called. If MyMemory raises, Google is called next; if Google answers,
  the same happens with its answer. If both raise, the call raises Google's exception,
  \<open>errors\<close> grows by exactly one, \<open>api_calls\<close> and the cache stay as they were after
  the lookup.
\<close>

theorem translate_text_fallback_chain:
  "let key = (py_strip text, source_lang, target_lang);
       c = snd (TTLCache_get (translation_cache s) key (clock_get w target_lang));
       call_mymemory = BackendCall MyMemory source_lang target_lang text;
       call_google = BackendCall Google source_lang target_lang text
   in fst (TTLCache_get (translation_cache s) key (clock_get w target_lang)) = Inr cached \<and>
      \<not> truthy cached \<and> 1 \<le> max_size (translation_cache s) \<longrightarrow>
      (translator w MyMemory source_lang target_lang text = Inr r \<longrightarrow>
         translate_text w text source_lang target_lang s =
           (Inr r,
            s\<lparr>effects := effects s @ [call_mymemory],
              stats := (stats s)\<lparr>api_calls := api_calls (stats s) + 1\<rparr>,
              translation_cache := snd (TTLCache_set c key r (clock_set w MyMemory target_lang))\<rparr>) \<and>
         od_getitem (cache (snd (TTLCache_set c key r (clock_set w MyMemory target_lang)))) key = Some r)
      \<and> (translator w MyMemory source_lang target_lang text = Inl e1 \<and>
          translator w Google source_lang target_lang text = Inr r \<longrightarrow>
         translate_text w text source_lang target_lang s =
           (Inr r,
            s\<lparr>effects := effects s @ [call_mymemory, call_google],
              stats := (stats s)\<lparr>api_calls := api_calls (stats s) + 1\<rparr>,
              translation_cache := snd (TTLCache_set c key r (clock_set w Google target_lang))\<rparr>) \<and>
         od_getitem (cache (snd (TTLCache_set c key r (clock_set w Google target_lang)))) key = Some r)
      \<and> (translator w MyMemory source_lang target_lang text = Inl e1 \<and>
          translator w Google source_lang target_lang text = Inl e2 \<longrightarrow>
         translate_text w text source_lang target_lang s =
           (Inl e2,
            s\<lparr>effects := effects s @ [call_mymemory, call_google],
              stats := (stats s)\<lparr>errors := errors (stats s) + 1\<rparr>,
              translation_cache := c\<rparr>))"
proof -
  let ?key = "(py_strip text, source_lang, target_lang)"
  let ?c = "snd (TTLCache_get (translation_cache s) ?key (clock_get w target_lang))"
  {
    assume h: "fst (TTLCache_get (translation_cache s) ?key (clock_get w target_lang)) = Inr cached"
      and miss: "\<not> truthy cached" and m: "1 \<le> max_size (translation_cache s)"
    have get: "TTLCache_get (translation_cache s) ?key (clock_get w target_lang) = (Inr cached, ?c)"
      using h by (simp add: prod_eq_iff)
    have mc: "1 \<le> max_size ?c" using m by (simp add: TTLCache_get_size)
    note tm = translate_text_miss[OF get miss mc]
    note stored = TTLCache_set_entry(2)[OF mc, of ?key, unfolded od_getitem_def[symmetric]]
    have "(translator w MyMemory source_lang target_lang text = Inr r \<longrightarrow>
         translate_text w text source_lang target_lang s =
           (Inr r,
            s\<lparr>effects := effects s @ [BackendCall MyMemory source_lang target_lang text],
              stats := (stats s)\<lparr>api_calls := api_calls (stats s) + 1\<rparr>,
              translation_cache := snd (TTLCache_set ?c ?key r (clock_set w MyMemory target_lang))\<rparr>) \<and>
         od_getitem (cache (snd (TTLCache_set ?c ?key r (clock_set w MyMemory target_lang)))) ?key = Some r)"
      using tm stored by simp
    moreover have "(translator w MyMemory source_lang target_lang text = Inl e1 \<and>
          translator w Google source_lang target_lang text = Inr r \<longrightarrow>
         translate_text w text source_lang target_lang s =
           (Inr r,
            s\<lparr>effects := effects s @ [BackendCall MyMemory source_lang target_lang text,
                                       BackendCall Google source_lang target_lang text],
              stats := (stats s)\<lparr>api_calls := api_calls (stats s) + 1\<rparr>,
              translation_cache := snd (TTLCache_set ?c ?key r (clock_set w Google target_lang))\<rparr>) \<and>
         od_getitem (cache (snd (TTLCache_set ?c ?key r (clock_set w Google target_lang)))) ?key = Some r)"
      using tm stored by simp
    moreover have "(translator w MyMemory source_lang target_lang text = Inl e1 \<and>
          translator w Google source_lang target_lang text = Inl e2 \<longrightarrow>
         translate_text w text source_lang target_lang s =
           (Inl e2,
            s\<lparr>effects := effects s @ [BackendCall MyMemory source_lang target_lang text,
                                       BackendCall Google source_lang target_lang text],
              stats := (stats s)\<lparr>errors := errors (stats s) + 1\<rparr>,
              translation_cache := ?c\<rparr>))"
      using tm by simp
    ultimately have "(translator w MyMemory source_lang target_lang text = Inr r \<longrightarrow>
         translate_text w text source_lang target_lang s =
           (Inr r,
            s\<lparr>effects := effects s @ [BackendCall MyMemory source_lang target_lang text],
              stats := (stats s)\<lparr>api_calls := api_calls (stats s) + 1\<rparr>,
              translation_cache := snd (TTLCache_set ?c ?key r (clock_set w MyMemory target_lang))\<rparr>) \<and>
         od_getitem (cache (snd (TTLCache_set ?c ?key r (clock_set w MyMemory target_lang)))) ?key = Some r)
      \<and> (translator w MyMemory source_lang target_lang text = Inl e1 \<and>
          translator w Google source_lang target_lang text = Inr r \<longrightarrow>
         translate_text w text source_lang target_lang s =
           (Inr r,
            s\<lparr>effects := effects s @ [BackendCall MyMemory source_lang target_lang text,
                                       BackendCall Google source_lang target_lang text],
              stats := (stats s)\<lparr>api_calls := api_calls (stats s) + 1\<rparr>,
              translation_cache := snd (TTLCache_set ?c ?key r (clock_set w Google target_lang))\<rparr>) \<and>
         od_getitem (cache (snd (TTLCache_set ?c ?key r (clock_set w Google target_lang)))) ?key = Some r)
      \<and> (translator w MyMemory source_lang target_lang text = Inl e1 \<and>
          translator w Google source_lang target_lang text = Inl e2 \<longrightarrow>
         translate_text w text source_lang target_lang s =
           (Inl e2,
            s\<lparr>effects := effects s @ [BackendCall MyMemory source_lang target_lang text,
                                       BackendCall Google source_lang target_lang text],
              stats := (stats s)\<lparr>errors := errors (stats s) + 1\<rparr>,
              translation_cache := ?c\<rparr>))"
      by blast
  }
  then show ?thesis unfolding Let_def by blast
qed

theorem translate_text_fallback_chain_witness:
  "fst (TTLCache_get (translation_cache initial_state) (py_strip ''Bonjour le monde'', ''fr'', ''en'') 1001)
     = Inr None \<and>
   \<not> truthy None \<and> 1 \<le> max_size (translation_cache initial_state) \<and>
   fst (translate_text (demo_world (Inr ''Hello world'') (Inr ''Hi world'') (Inr ()))
          ''Bonjour le monde'' ''fr'' ''en'' initial_state) = Inr ''Hello world'' \<and>
   effects (snd (translate_text (demo_world (Inr ''Hello world'') (Inr ''Hi world'') (Inr ()))
          ''Bonjour le monde'' ''fr'' ''en'' initial_state))
     = [BackendCall MyMemory ''fr'' ''en'' ''Bonjour le monde''] \<and>
   fst (translate_text (demo_world (Inl (OtherException ''quota'')) (Inr ''Hi world'') (Inr ()))
          ''Bonjour le monde'' ''fr'' ''en'' initial_state) = Inr ''Hi world'' \<and>
   effects (snd (translate_text (demo_world (Inl (OtherException ''quota'')) (Inr ''Hi world'') (Inr ()))
          ''Bonjour le monde'' ''fr'' ''en'' initial_state))
     = [BackendCall MyMemory ''fr'' ''en'' ''Bonjour le monde'',
        BackendCall Google ''fr'' ''en'' ''Bonjour le monde''] \<and>
   api_calls (stats (snd (translate_text (demo_world (Inl (OtherException ''quota'')) (Inr ''Hi world'') (Inr ()))
          ''Bonjour le monde'' ''fr'' ''en'' initial_state))) = 1 \<and>
   fst (translate_text (demo_world (Inl (OtherException ''quota'')) (Inl (OtherException ''down'')) (Inr ()))
          ''Bonjour le monde'' ''fr'' ''en'' initial_state) = Inl (OtherException ''down'') \<and>
   errors (stats (snd (translate_text (demo_world (Inl (OtherException ''quota'')) (Inl (OtherException ''down'')) (Inr ()))
          ''Bonjour le monde'' ''fr'' ''en'' initial_state))) = 1 \<and>
   api_calls (stats (snd (translate_text (demo_world (Inl (OtherException ''quota'')) (Inl (OtherException ''down'')) (Inr ()))
          ''Bonjour le monde'' ''fr'' ''en'' initial_state))) = 0"
proof -
  let ?key = "(py_strip ''Bonjour le monde'', ''fr'', ''en'')"
  let ?w1 = "demo_world (Inr ''Hello world'') (Inr ''Hi world'') (Inr ())"
  let ?w2 = "demo_world (Inl (OtherException ''quota'')) (Inr ''Hi world'') (Inr ())"
  let ?w3 = "demo_world (Inl (OtherException ''quota'')) (Inl (OtherException ''down'')) (Inr ())"
  have look: "fst (TTLCache_get (translation_cache initial_state) ?key 1001) = Inr None"
    by (simp add: TTLCache_get_def initial_state_def TTLCache_init_def od_contains_def)
  have miss: "\<not> truthy None" by (simp add: truthy_def)
  have cap: "1 \<le> max_size (translation_cache initial_state)"
    by (simp add: initial_state_def TTLCache_init_def CACHE_MAX_SIZE_def)
  have st: "stats initial_state = \<lparr>translations_total = 0, cache_hits = 0, rate_limit_blocks = 0,
      errors = 0, api_calls = 0\<rparr>" and ef: "effects initial_state = []"
    by (simp_all add: initial_state_def)
  have h: "\<And>a b c. fst (TTLCache_get (translation_cache initial_state) ?key
             (clock_get (demo_world a b c) ''en'')) = Inr None \<and>
         \<not> truthy None \<and> 1 \<le> max_size (translation_cache initial_state)"
    using look miss cap by (simp add: demo_world_def)
  have t1: "translator ?w1 MyMemory ''fr'' ''en'' ''Bonjour le monde'' = Inr ''Hello world''"
    by (simp add: demo_world_def)
  have t2: "translator ?w2 MyMemory ''fr'' ''en'' ''Bonjour le monde'' = Inl (OtherException ''quota'') \<and>
            translator ?w2 Google ''fr'' ''en'' ''Bonjour le monde'' = Inr ''Hi world''"
    by (simp add: demo_world_def)
  have t3: "translator ?w3 MyMemory ''fr'' ''en'' ''Bonjour le monde'' = Inl (OtherException ''quota'') \<and>
            translator ?w3 Google ''fr'' ''en'' ''Bonjour le monde'' = Inl (OtherException ''down'')"
    by (simp add: demo_world_def)
  note th1 = translate_text_fallback_chain[where w = ?w1 and s = initial_state
      and ?text = "''Bonjour le monde''" and source_lang = "''fr''" and target_lang = "''en''"
      and cached = None and r = "''Hello world''", unfolded Let_def]
  note th2 = translate_text_fallback_chain[where w = ?w2 and s = initial_state
      and ?text = "''Bonjour le monde''" and source_lang = "''fr''" and target_lang = "''en''"
      and cached = None and r = "''Hi world''" and ?e1.0 = "OtherException ''quota''", unfolded Let_def]
  note th3 = translate_text_fallback_chain[where w = ?w3 and s = initial_state
      and ?text = "''Bonjour le monde''" and source_lang = "''fr''" and target_lang = "''en''"
      and cached = None and ?e1.0 = "OtherException ''quota''" and ?e2.0 = "OtherException ''down''",
      unfolded Let_def]
  from th1 h t1 have r1: "translate_text ?w1 ''Bonjour le monde'' ''fr'' ''en'' initial_state =
           (Inr ''Hello world'',
            initial_state\<lparr>effects := effects initial_state @ [BackendCall MyMemory ''fr'' ''en'' ''Bonjour le monde''],
              stats := (stats initial_state)\<lparr>api_calls := api_calls (stats initial_state) + 1\<rparr>,
              translation_cache := snd (TTLCache_set
                 (snd (TTLCache_get (translation_cache initial_state) ?key (clock_get ?w1 ''en'')))
                 ?key ''Hello world'' (clock_set ?w1 MyMemory ''en''))\<rparr>)"
    by blast
  from th2 h t2 have r2: "translate_text ?w2 ''Bonjour le monde'' ''fr'' ''en'' initial_state =
           (Inr ''Hi world'',
            initial_state\<lparr>effects := effects initial_state @ [BackendCall MyMemory ''fr'' ''en'' ''Bonjour le monde'',
                 BackendCall Google ''fr'' ''en'' ''Bonjour le monde''],
              stats := (stats initial_state)\<lparr>api_calls := api_calls (stats initial_state) + 1\<rparr>,
              translation_cache := snd (TTLCache_set
                 (snd (TTLCache_get (translation_cache initial_state) ?key (clock_get ?w2 ''en'')))
                 ?key ''Hi world'' (clock_set ?w2 Google ''en''))\<rparr>)"
    by blast
  from th3 h t3 have r3: "translate_text ?w3 ''Bonjour le monde'' ''fr'' ''en'' initial_state =
           (Inl (OtherException ''down''),
            initial_state\<lparr>effects := effects initial_state @ [BackendCall MyMemory ''fr'' ''en'' ''Bonjour le monde'',
                 BackendCall Google ''fr'' ''en'' ''Bonjour le monde''],
              stats := (stats initial_state)\<lparr>errors := errors (stats initial_state) + 1\<rparr>,
              translation_cache :=
                 snd (TTLCache_get (translation_cache initial_state) ?key (clock_get ?w3 ''en''))\<rparr>)"
    by blast
  show ?thesis
    unfolding r1 r2 r3 using look miss cap by (simp add: st ef)
qed

lemma try_backend_cache_hits:
  "cache_hits (stats (snd (try_backend w b text source_lang target_lang s))) = cache_hits (stats s)"
  by (simp add: try_backend_def Let_def split: sum.splits prod.splits)

lemma translate_text_hit_counted:
  assumes "cache_hits (stats (snd (translate_text w text source_lang target_lang s))) \<noteq> cache_hits (stats s)"
  shows "\<exists>v. v \<noteq> [] \<and>
           fst (TTLCache_get (translation_cache s) (py_strip text, source_lang, target_lang)
                  (clock_get w target_lang)) = Inr (Some v) \<and>
           fst (translate_text w text source_lang target_lang s) = Inr v"
proof -
  obtain g c where get: "TTLCache_get (translation_cache s) (py_strip text, source_lang, target_lang)
                  (clock_get w target_lang) = (g, c)"
    by (cases "TTLCache_get (translation_cache s) (py_strip text, source_lang, target_lang)
                  (clock_get w target_lang)")
  show ?thesis
  proof (cases g)
    case (Inl e)
    then show ?thesis using assms get by (simp add: translate_text_def)
  next
    case (Inr cached)
    show ?thesis
    proof (cases "truthy cached")
      case True
      then obtain v where "cached = Some v" "v \<noteq> []"
        by (auto simp: truthy_def split: option.splits)
      then show ?thesis
        using get Inr by (simp add: translate_text_lookup truthy_def)
    next
      case False
      let ?s1 = "s\<lparr>translation_cache := c\<rparr>"
      obtain r1 s2 where t1: "try_backend w MyMemory text source_lang target_lang ?s1 = (r1, s2)"
        by (cases "try_backend w MyMemory text source_lang target_lang ?s1")
      obtain r2 s3 where t2: "try_backend w Google text source_lang target_lang s2 = (r2, s3)"
        by (cases "try_backend w Google text source_lang target_lang s2")
      have a: "cache_hits (stats s2) = cache_hits (stats s)"
        using try_backend_cache_hits[of w MyMemory "text" source_lang target_lang ?s1] t1 by simp
      have b: "cache_hits (stats s3) = cache_hits (stats s)"
        using try_backend_cache_hits[of w Google "text" source_lang target_lang s2] t2 a by simp
      have "cache_hits (stats (snd (translate_text w text source_lang target_lang s))) = cache_hits (stats s)"
        using False a b
        by (cases r1; cases r2) (simp_all add: translate_text_lookup[OF get[unfolded Inr]] t1 t2)
      with assms show ?thesis by simp
    qed
  qed
qed

text \<open>
  Claim C10. When the cache holds the empty string under the key and the entry has not
  expired, the lookup of \<open>translate_text\<close> finds it, but the call counts no cache hit and
  goes to the back ends as on a miss: MyMemory is called, and Google after it if MyMemory
  raises. A lookup that finds a non-empty value is a hit: that value is returned and
  \<open>cache_hits\<close> grows by one. Conversely, whenever a call changes \<open>cache_hits\<close>, the
  lookup found a non-empty value and the call returned it.
\<close>

theorem translate_text_empty_cached_value:
  "let key = (py_strip text, source_lang, target_lang);
       lookup = TTLCache_get (translation_cache s) key (clock_get w target_lang);
       call_mymemory = BackendCall MyMemory source_lang target_lang text;
       call_google = BackendCall Google source_lang target_lang text;
       result = translate_text w text source_lang target_lang s
   in (cache_inv (translation_cache s) \<and> 1 \<le> max_size (translation_cache s) \<and>
       od_getitem (cache (translation_cache s)) key = Some [] \<and>
       timestamps (translation_cache s) key = Some ts \<and>
       \<not> clock_get w target_lang - ts > real_of_int (ttl (translation_cache s)) \<longrightarrow>
         fst lookup = Inr (Some []) \<and>
         cache_hits (stats (snd result)) = cache_hits (stats s) \<and>
         effects (snd result) = effects s @
           (case translator w MyMemory source_lang target_lang text of
              Inr _ \<Rightarrow> [call_mymemory] | Inl _ \<Rightarrow> [call_mymemory, call_google]) \<and>
         fst result =
           (case translator w MyMemory source_lang target_lang text of
              Inr r \<Rightarrow> Inr r
            | Inl _ \<Rightarrow> translator w Google source_lang target_lang text))
    \<and> (fst lookup = Inr (Some v) \<and> v \<noteq> [] \<longrightarrow>
         result = (Inr v, s\<lparr>translation_cache := snd lookup,
                            stats := (stats s)\<lparr>cache_hits := cache_hits (stats s) + 1\<rparr>\<rparr>))
    \<and> (cache_hits (stats (snd result)) \<noteq> cache_hits (stats s) \<longrightarrow>
         (\<exists>v'. v' \<noteq> [] \<and> fst lookup = Inr (Some v') \<and> fst result = Inr v'))"
proof -
  let ?key = "(py_strip text, source_lang, target_lang)"
  let ?lookup = "TTLCache_get (translation_cache s) ?key (clock_get w target_lang)"
  let ?result = "translate_text w text source_lang target_lang s"
  have part1: "fst ?lookup = Inr (Some []) \<and>
         cache_hits (stats (snd ?result)) = cache_hits (stats s) \<and>
         effects (snd ?result) = effects s @
           (case translator w MyMemory source_lang target_lang text of
              Inr _ \<Rightarrow> [BackendCall MyMemory source_lang target_lang text]
            | Inl _ \<Rightarrow> [BackendCall MyMemory source_lang target_lang text,
                         BackendCall Google source_lang target_lang text]) \<and>
         fst ?result =
           (case translator w MyMemory source_lang target_lang text of
              Inr r \<Rightarrow> Inr r
            | Inl _ \<Rightarrow> translator w Google source_lang target_lang text)"
    if h: "cache_inv (translation_cache s) \<and> 1 \<le> max_size (translation_cache s) \<and>
       od_getitem (cache (translation_cache s)) ?key = Some [] \<and>
       timestamps (translation_cache s) ?key = Some ts \<and>
       \<not> clock_get w target_lang - ts > real_of_int (ttl (translation_cache s))"
  proof -
    from h have inv: "cache_inv (translation_cache s)" by simp
    have look: "fst ?lookup = Inr (Some [])"
      using h by (simp add: TTLCache_get_eq[OF inv] od_getitem_def)
    then have get: "?lookup = (Inr (Some []), snd ?lookup)" by (simp add: prod_eq_iff)
    have miss: "\<not> truthy (Some [])" by (simp add: truthy_def)
    have mc: "1 \<le> max_size (snd ?lookup)" using h by (simp add: TTLCache_get_size)
    note tm = translate_text_miss[OF get miss mc]
    show ?thesis
      using look by (simp add: tm split: sum.splits)
  qed
  have part2: "?result = (Inr v, s\<lparr>translation_cache := snd ?lookup,
                            stats := (stats s)\<lparr>cache_hits := cache_hits (stats s) + 1\<rparr>\<rparr>)"
    if h: "fst ?lookup = Inr (Some v) \<and> v \<noteq> []"
  proof -
    from h have get: "?lookup = (Inr (Some v), snd ?lookup)" by (simp add: prod_eq_iff)
    show ?thesis
      using h by (simp add: translate_text_lookup[OF get] truthy_def)
  qed
  have part3: "\<exists>v'. v' \<noteq> [] \<and> fst ?lookup = Inr (Some v') \<and> fst ?result = Inr v'"
    if "cache_hits (stats (snd ?result)) \<noteq> cache_hits (stats s)"
    using that by (rule translate_text_hit_counted)
  show ?thesis
    unfolding Let_def using part1 part2 part3 by blast
qed

theorem translate_text_empty_cached_value_witness:
  "cache_inv (translation_cache (initial_state\<lparr>translation_cache :=
      \<lparr>cache = [((py_strip ''Bonjour le monde'', ''fr'', ''en''), '''')],
       timestamps = [(py_strip ''Bonjour le monde'', ''fr'', ''en'') \<mapsto> 900],
       max_size = 2000, ttl = 3600\<rparr>\<rparr>)) \<and>
   od_getitem (cache (translation_cache (initial_state\<lparr>translation_cache :=
      \<lparr>cache = [((py_strip ''Bonjour le monde'', ''fr'', ''en''), '''')],
       timestamps = [(py_strip ''Bonjour le monde'', ''fr'', ''en'') \<mapsto> 900],
       max_size = 2000, ttl = 3600\<rparr>\<rparr>))) (py_strip ''Bonjour le monde'', ''fr'', ''en'') = Some '''' \<and>
   \<not> 1001 - 900 > real_of_int 3600 \<and>
   cache_hits (stats (snd (translate_text (demo_world (Inr ''Hello world'') (Inr ''Hi world'') (Inr ()))
      ''Bonjour le monde'' ''fr'' ''en''
      (initial_state\<lparr>translation_cache :=
      \<lparr>cache = [((py_strip ''Bonjour le monde'', ''fr'', ''en''), '''')],
       timestamps = [(py_strip ''Bonjour le monde'', ''fr'', ''en'') \<mapsto> 900],
       max_size = 2000, ttl = 3600\<rparr>\<rparr>)))) = 0 \<and>
   effects (snd (translate_text (demo_world (Inr ''Hello world'') (Inr ''Hi world'') (Inr ()))
      ''Bonjour le monde'' ''fr'' ''en''
      (initial_state\<lparr>translation_cache :=
      \<lparr>cache = [((py_strip ''Bonjour le monde'', ''fr'', ''en''), '''')],
       timestamps = [(py_strip ''Bonjour le monde'', ''fr'', ''en'') \<mapsto> 900],
       max_size = 2000, ttl = 3600\<rparr>\<rparr>)))
     = [BackendCall MyMemory ''fr'' ''en'' ''Bonjour le monde''] \<and>
   fst (translate_text (demo_world (Inr ''Hello world'') (Inr ''Hi world'') (Inr ()))
      ''Bonjour le monde'' ''fr'' ''en''
      (initial_state\<lparr>translation_cache :=
      \<lparr>cache = [((py_strip ''Bonjour le monde'', ''fr'', ''en''), '''')],
       timestamps = [(py_strip ''Bonjour le monde'', ''fr'', ''en'') \<mapsto> 900],
       max_size = 2000, ttl = 3600\<rparr>\<rparr>)) = Inr ''Hello world'' \<and>
   fst (TTLCache_get (translation_cache (initial_state\<lparr>translation_cache :=
      \<lparr>cache = [((py_strip ''Bonjour le monde'', ''fr'', ''en''), ''Hello'')],
       timestamps = [(py_strip ''Bonjour le monde'', ''fr'', ''en'') \<mapsto> 900],
       max_size = 2000, ttl = 3600\<rparr>\<rparr>)) (py_strip ''Bonjour le monde'', ''fr'', ''en'') 1001)
     = Inr (Some ''Hello'') \<and>
   ''Hello'' \<noteq> [] \<and>
   fst (translate_text (demo_world (Inr ''Hello world'') (Inr ''Hi world'') (Inr ()))
      ''Bonjour le monde'' ''fr'' ''en''
      (initial_state\<lparr>translation_cache :=
      \<lparr>cache = [((py_strip ''Bonjour le monde'', ''fr'', ''en''), ''Hello'')],
       timestamps = [(py_strip ''Bonjour le monde'', ''fr'', ''en'') \<mapsto> 900],
       max_size = 2000, ttl = 3600\<rparr>\<rparr>)) = Inr ''Hello'' \<and>
   cache_hits (stats (snd (translate_text (demo_world (Inr ''Hello world'') (Inr ''Hi world'') (Inr ()))
      ''Bonjour le monde'' ''fr'' ''en''
      (initial_state\<lparr>translation_cache :=
      \<lparr>cache = [((py_strip ''Bonjour le monde'', ''fr'', ''en''), ''Hello'')],
       timestamps = [(py_strip ''Bonjour le monde'', ''fr'', ''en'') \<mapsto> 900],
       max_size = 2000, ttl = 3600\<rparr>\<rparr>)))) = 1"
proof -
  let ?key = "(py_strip ''Bonjour le monde'', ''fr'', ''en'')"
  let ?w = "demo_world (Inr ''Hello world'') (Inr ''Hi world'') (Inr ())"
  let ?e = "initial_state\<lparr>translation_cache :=
      \<lparr>cache = [(?key, '''')], timestamps = [?key \<mapsto> 900], max_size = 2000, ttl = 3600\<rparr>\<rparr>"
  let ?f = "initial_state\<lparr>translation_cache :=
      \<lparr>cache = [(?key, ''Hello'')], timestamps = [?key \<mapsto> 900], max_size = 2000, ttl = 3600\<rparr>\<rparr>"
  have inv: "cache_inv (translation_cache ?e)" by (simp add: cache_inv_def)
  have got: "od_getitem (cache (translation_cache ?e)) ?key = Some ''''" by (simp add: od_getitem_def)
  have st: "cache_hits (stats initial_state) = 0" "effects initial_state = []"
    by (simp_all add: initial_state_def)
  have cg: "clock_get ?w ''en'' = 1001"
    and mm: "translator ?w MyMemory ''fr'' ''en'' ''Bonjour le monde'' = Inr ''Hello world''"
    by (simp_all add: demo_world_def)
  have h: "cache_inv (translation_cache ?e) \<and> 1 \<le> max_size (translation_cache ?e) \<and>
       od_getitem (cache (translation_cache ?e)) ?key = Some [] \<and>
       timestamps (translation_cache ?e) ?key = Some 900 \<and>
       \<not> clock_get ?w ''en'' - 900 > real_of_int (ttl (translation_cache ?e))"
    using inv got by (simp add: cg)
  note th = translate_text_empty_cached_value[where w = ?w and s = ?e
      and ?text = "''Bonjour le monde''" and source_lang = "''fr''" and target_lang = "''en''"
      and ts = 900, unfolded Let_def]
  from th h have e1: "cache_hits (stats (snd (translate_text ?w ''Bonjour le monde'' ''fr'' ''en'' ?e)))
        = cache_hits (stats ?e)"
    and e2: "effects (snd (translate_text ?w ''Bonjour le monde'' ''fr'' ''en'' ?e)) = effects ?e @
           (case translator ?w MyMemory ''fr'' ''en'' ''Bonjour le monde'' of
              Inr _ \<Rightarrow> [BackendCall MyMemory ''fr'' ''en'' ''Bonjour le monde'']
            | Inl _ \<Rightarrow> [BackendCall MyMemory ''fr'' ''en'' ''Bonjour le monde'',
                         BackendCall Google ''fr'' ''en'' ''Bonjour le monde''])"
    and e3: "fst (translate_text ?w ''Bonjour le monde'' ''fr'' ''en'' ?e) =
           (case translator ?w MyMemory ''fr'' ''en'' ''Bonjour le monde'' of
              Inr r \<Rightarrow> Inr r
            | Inl _ \<Rightarrow> translator ?w Google ''fr'' ''en'' ''Bonjour le monde'')"
    by blast+
  have look: "fst (TTLCache_get (translation_cache ?f) ?key (clock_get ?w ''en'')) = Inr (Some ''Hello'') \<and>
      ''Hello'' \<noteq> []"
    by (simp add: cg TTLCache_get_def od_contains_def od_move_to_end_def od_getitem_def)
  note th' = translate_text_empty_cached_value[where w = ?w and s = ?f
      and ?text = "''Bonjour le monde''" and source_lang = "''fr''" and target_lang = "''en''"
      and v = "''Hello''", unfolded Let_def]
  from th' look have f1: "translate_text ?w ''Bonjour le monde'' ''fr'' ''en'' ?f =
      (Inr ''Hello'', ?f\<lparr>translation_cache :=
            snd (TTLCache_get (translation_cache ?f) ?key (clock_get ?w ''en'')),
          stats := (stats ?f)\<lparr>cache_hits := cache_hits (stats ?f) + 1\<rparr>\<rparr>)"
    by blast
  show ?thesis
    unfolding f1 using inv got e1 e2 e3 look by (simp add: st mm cg)
qed

section \<open>Properties of the orchestrator\<close>

lemma try_backend_frame:
  "author_cooldowns (snd (try_backend w b text source_lang target_lang s)) = author_cooldowns s"
  "author_translation_count (snd (try_backend w b text source_lang target_lang s)) = author_translation_count s"
  "translations_total (stats (snd (try_backend w b text source_lang target_lang s))) = translations_total (stats s)"
  by (simp_all add: try_backend_def Let_def split: sum.splits prod.splits)

lemma translate_text_frame:
  "author_cooldowns (snd (translate_text w text source_lang target_lang s)) = author_cooldowns s \<and>
   author_translation_count (snd (translate_text w text source_lang target_lang s)) = author_translation_count s \<and>
   translations_total (stats (snd (translate_text w text source_lang target_lang s))) = translations_total (stats s)"
proof -
  obtain g c where get: "TTLCache_get (translation_cache s) (py_strip text, source_lang, target_lang)
                  (clock_get w target_lang) = (g, c)"
    by (cases "TTLCache_get (translation_cache s) (py_strip text, source_lang, target_lang)
                  (clock_get w target_lang)")
  show ?thesis
  proof (cases g)
    case (Inl e)
    then show ?thesis using get by (simp add: translate_text_def)
  next
    case (Inr cached)
    let ?s1 = "s\<lparr>translation_cache := c\<rparr>"
    obtain r1 s2 where t1: "try_backend w MyMemory text source_lang target_lang ?s1 = (r1, s2)"
      by (cases "try_backend w MyMemory text source_lang target_lang ?s1")
    obtain r2 s3 where t2: "try_backend w Google text source_lang target_lang s2 = (r2, s3)"
      by (cases "try_backend w Google text source_lang target_lang s2")
    have a: "author_cooldowns s2 = author_cooldowns s"
      "author_translation_count s2 = author_translation_count s"
      "translations_total (stats s2) = translations_total (stats s)"
      using try_backend_frame[of w MyMemory "text" source_lang target_lang ?s1] t1 by simp_all
    have b: "author_cooldowns s3 = author_cooldowns s"
      "author_translation_count s3 = author_translation_count s"
      "translations_total (stats s3) = translations_total (stats s)"
      using try_backend_frame[of w Google "text" source_lang target_lang s2] t2 a by simp_all
    show ?thesis
      using a b
      by (cases r1; cases r2) (simp_all add: translate_text_lookup[OF get[unfolded Inr]] t1 t2)
  qed
qed

lemma translate_all_frame:
  "author_cooldowns (snd (translate_all w text source_lang langs tr s)) = author_cooldowns s \<and>
   author_translation_count (snd (translate_all w text source_lang langs tr s)) = author_translation_count s \<and>
   translations_total (stats (snd (translate_all w text source_lang langs tr s))) = translations_total (stats s)"
proof (induction langs arbitrary: tr s)
  case Nil
  then show ?case by simp
next
  case (Cons lang langs)
  obtain r s1 where t: "translate_text w text source_lang lang s = (r, s1)"
    by (cases "translate_text w text source_lang lang s")
  have f: "author_cooldowns s1 = author_cooldowns s \<and>
           author_translation_count s1 = author_translation_count s \<and>
           translations_total (stats s1) = translations_total (stats s)"
    using translate_text_frame[of w "text" source_lang lang s] t by simp
  show ?case
    using f Cons.IH[of _ s1] by (cases r) (simp_all add: t)
qed

lemma send_reply_effects:
  "effects (snd (send_reply w msg translations s)) = effects s @ [ReplyCall (build_embed translations)]"
  by (simp add: send_reply_def Let_def update_rate_limit_def dd_getitem_def
      split: sum.splits py_exception.splits option.splits)

lemma send_reply_delivered:
  assumes "reply w (build_embed translations) = Inr ()"
  shows "send_reply w msg translations s =
    (Replied (build_embed translations),
     (update_rate_limit (clock_commit w) (author_id msg) s)
       \<lparr>effects := effects s @ [ReplyCall (build_embed translations)],
        stats := (stats s)\<lparr>translations_total := translations_total (stats s) + int (length translations)\<rparr>\<rparr>)"
  using assms
  by (simp add: send_reply_def Let_def update_rate_limit_def dd_getitem_def split: option.splits)

lemma send_reply_failed:
  assumes "reply w (build_embed translations) = Inl e"
  shows "send_reply w msg translations s =
    ((case e of Forbidden \<Rightarrow> ReplyFailed Forbidden | HTTPException \<Rightarrow> ReplyFailed HTTPException
         | _ \<Rightarrow> Raised e),
     s\<lparr>effects := effects s @ [ReplyCall (build_embed translations)],
       stats := (stats s)\<lparr>errors := errors (stats s) + (if e = HTTPException then 1 else 0)\<rparr>\<rparr>)"
  using assms by (cases e) (simp_all add: send_reply_def Let_def)

lemma send_reply_outcome:
  "fst (send_reply w msg translations s) = Replied sent \<longleftrightarrow>
     reply w (build_embed translations) = Inr () \<and> sent = build_embed translations"
  by (auto simp: send_reply_def Let_def split: sum.splits py_exception.splits)

lemma langs_to_translate_nonempty: "langs_to_translate TARGET_LANGUAGES source_lang \<noteq> []"
  by (simp add: langs_to_translate_def TARGET_LANGUAGES_def Let_def)

lemma on_message_pipeline:
  assumes "should_translate msg"
    and "fst (fst (check_rate_limit cfg (clock_check w) (author_id msg) s))"
    and "detect w (py_strip (content msg)) = Inr detected"
  shows "on_message cfg w msg s =
    (case translate_all w (py_strip (content msg)) (normalize_lang detected)
            (langs_to_translate TARGET_LANGUAGES (normalize_lang detected)) []
            (snd (check_rate_limit cfg (clock_check w) (author_id msg) s)) of
       (translations, s2) \<Rightarrow>
         if translations = [] then (NoTranslations, s2) else send_reply w msg translations s2)"
proof -
  obtain rsn s1 where c: "check_rate_limit cfg (clock_check w) (author_id msg) s = ((True, rsn), s1)"
    using assms(2) by (cases "check_rate_limit cfg (clock_check w) (author_id msg) s") auto
  show ?thesis
    using assms(1,3) by (simp add: on_message_def Let_def langs_to_translate_nonempty c)
qed

lemma on_message_cases:
  fixes cfg w msg s
  defines "s_chk \<equiv> if should_translate msg
                     then snd (check_rate_limit cfg (clock_check w) (author_id msg) s) else s"
  shows "(\<exists>translations s2.
            on_message cfg w msg s = send_reply w msg translations s2 \<and>
            author_cooldowns s2 = author_cooldowns s_chk \<and>
            author_translation_count s2 = author_translation_count s_chk \<and>
            translations_total (stats s2) = translations_total (stats s))
       \<or> ((\<forall>x. fst (on_message cfg w msg s) \<noteq> Replied x) \<and>
           author_cooldowns (snd (on_message cfg w msg s)) = author_cooldowns s_chk \<and>
           author_translation_count (snd (on_message cfg w msg s)) = author_translation_count s_chk \<and>
           translations_total (stats (snd (on_message cfg w msg s))) = translations_total (stats s))"
proof (cases "should_translate msg")
  case False
  then show ?thesis by (simp add: on_message_def s_chk_def)
next
  case True
  let ?chk = "check_rate_limit cfg (clock_check w) (author_id msg) s"
  have chk: "s_chk = snd ?chk" using True by (simp add: s_chk_def)
  have tt: "translations_total (stats (snd ?chk)) = translations_total (stats s)"
    by (simp add: check_rate_limit_state)
  show ?thesis
  proof (cases "fst (fst ?chk)")
    case False
    obtain can rsn s1 where c: "?chk = ((can, rsn), s1)"
      by (cases ?chk) auto
    show ?thesis using True False tt
      by (simp add: on_message_def chk c)
  next
    case can: True
    show ?thesis
    proof (cases "detect w (py_strip (content msg))")
      case (Inl e)
      obtain rsn s1 where c: "?chk = ((True, rsn), s1)"
        using can by (cases ?chk) auto
      show ?thesis using True Inl tt
        by (simp add: on_message_def chk c Let_def)
    next
      case (Inr detected)
      let ?loop = "translate_all w (py_strip (content msg)) (normalize_lang detected)
            (langs_to_translate TARGET_LANGUAGES (normalize_lang detected)) [] (snd ?chk)"
      obtain produced s2 where lp: "?loop = (produced, s2)" by (cases ?loop)
      have fr: "author_cooldowns s2 = author_cooldowns (snd ?chk) \<and>
                author_translation_count s2 = author_translation_count (snd ?chk) \<and>
                translations_total (stats s2) = translations_total (stats (snd ?chk))"
        using translate_all_frame[of w "py_strip (content msg)" "normalize_lang detected"
            "langs_to_translate TARGET_LANGUAGES (normalize_lang detected)" "[]" "snd ?chk"] lp
        by simp
      have om: "on_message cfg w msg s =
          (if produced = [] then (NoTranslations, s2) else send_reply w msg produced s2)"
        by (simp add: on_message_pipeline[OF True can Inr] lp)
      show ?thesis
      proof (cases "produced = []")
        case True
        then show ?thesis using om fr tt by (simp add: chk)
      next
        case False
        then have "on_message cfg w msg s = send_reply w msg produced s2" using om by simp
        then show ?thesis using fr tt chk by auto
      qed
    qed
  qed
qed

lemma build_embed_length: "length (build_embed translations) = length translations"
  by (simp add: build_embed_def)

lemma update_rate_limit_cooldowns:
  "author_cooldowns (update_rate_limit now u s) = (author_cooldowns s)(u \<mapsto> now)"
  by (simp add: update_rate_limit_def dd_getitem_def split: option.splits)

lemma recorded_cong:
  "author_translation_count s = author_translation_count s' \<Longrightarrow> recorded s u = recorded s' u"
  by (simp add: recorded_def)

lemma demo_strip: "py_strip ''Bonjour le monde'' = ''Bonjour le monde''"
  by (simp add: py_strip_def py_isspace_def)

lemma demo_fields:
  "author_bot demo_message = False" "author_id demo_message = 7"
  "content demo_message = ''Bonjour le monde''"
  by (simp_all add: demo_message_def)

lemma demo_should_translate: "should_translate demo_message"
  by (simp add: should_translate_def demo_fields demo_strip MIN_MESSAGE_LENGTH_def
      MAX_MESSAGE_LENGTH_def forbidden_prefixes_def py_startswith_def py_remove_spaces_def
      py_isalpha_def)

lemma demo_normalize: "normalize_lang ''fr'' = ''fr''"
  by (simp add: normalize_lang_def py_lower_def py_lower_char_def)

lemma demo_check:
  "check_rate_limit default_config 1000 7 initial_state =
     ((True, ''''), initial_state\<lparr>author_cooldowns := [7 \<mapsto> 0],
                                   author_translation_count := [7 \<mapsto> []]\<rparr>)"
  by (simp add: check_rate_limit_def dd_getitem_def default_config_def initial_state_def)

lemma mymemory_targets_append:
  "mymemory_targets (a @ b) = mymemory_targets a @ mymemory_targets b"
  by (induction a rule: mymemory_targets.induct) simp_all

lemma TTLCache_get_returns:
  assumes "cache_inv c"
  shows "\<exists>cached. TTLCache_get c k now = (Inr cached, snd (TTLCache_get c k now))"
  by (simp add: TTLCache_get_eq[OF assms] split: option.splits)

lemma translate_text_attempt:
  assumes inv: "cache_inv (translation_cache s)" and m: "1 \<le> max_size (translation_cache s)"
  shows "cache_inv (translation_cache (snd (translate_text w text source_lang lang s))) \<and>
         1 \<le> max_size (translation_cache (snd (translate_text w text source_lang lang s))) \<and>
         (\<exists>new hit. effects (snd (translate_text w text source_lang lang s)) = effects s @ new \<and>
            mymemory_targets new = (if hit then [] else [lang]) \<and>
            cache_hits (stats (snd (translate_text w text source_lang lang s))) =
              cache_hits (stats s) + (if hit then 1 else 0))"
proof -
  let ?key = "(py_strip text, source_lang, lang)"
  let ?c = "snd (TTLCache_get (translation_cache s) ?key (clock_get w lang))"
  obtain cached where get: "TTLCache_get (translation_cache s) ?key (clock_get w lang) = (Inr cached, ?c)"
    using TTLCache_get_returns[OF inv] by blast
  have invc: "cache_inv ?c" by (rule TTLCache_get_inv[OF inv])
  have mc: "1 \<le> max_size ?c" using m by (simp add: TTLCache_get_size)
  have invset: "cache_inv (snd (TTLCache_set ?c ?key r t))" for r t
    by (rule TTLCache_set_inv[OF invc mc])
  have mset: "1 \<le> max_size (snd (TTLCache_set ?c ?key r t))" for r t
    using mc by (simp add: TTLCache_set_entry[OF mc])
  show ?thesis
  proof (cases "truthy cached")
    case True
    have "effects (snd (translate_text w text source_lang lang s)) = effects s @ [] \<and>
          mymemory_targets [] = (if True then [] else [lang]) \<and>
          cache_hits (stats (snd (translate_text w text source_lang lang s))) =
              cache_hits (stats s) + (if True then 1 else 0)"
      using True by (simp add: translate_text_lookup[OF get])
    then have "\<exists>new hit. effects (snd (translate_text w text source_lang lang s)) = effects s @ new \<and>
            mymemory_targets new = (if hit then [] else [lang]) \<and>
            cache_hits (stats (snd (translate_text w text source_lang lang s))) =
              cache_hits (stats s) + (if hit then 1 else 0)"
      by blast
    moreover have "cache_inv (translation_cache (snd (translate_text w text source_lang lang s))) \<and>
         1 \<le> max_size (translation_cache (snd (translate_text w text source_lang lang s)))"
      using True invc mc by (simp add: translate_text_lookup[OF get])
    ultimately show ?thesis by blast
  next
    case False
    note tm = translate_text_miss[OF get False mc]
    have c: "cache_inv (translation_cache (snd (translate_text w text source_lang lang s))) \<and>
         1 \<le> max_size (translation_cache (snd (translate_text w text source_lang lang s)))"
      using invc mc invset mset by (simp add: tm split: sum.splits)
    have "\<exists>new. effects (snd (translate_text w text source_lang lang s)) = effects s @ new \<and>
            mymemory_targets new = [lang] \<and>
            cache_hits (stats (snd (translate_text w text source_lang lang s))) = cache_hits (stats s)"
      by (simp add: tm split: sum.splits)
    then obtain new where "effects (snd (translate_text w text source_lang lang s)) = effects s @ new \<and>
            mymemory_targets new = (if False then [] else [lang]) \<and>
            cache_hits (stats (snd (translate_text w text source_lang lang s))) =
              cache_hits (stats s) + (if False then 1 else 0)"
      by auto
    then have "\<exists>new hit. effects (snd (translate_text w text source_lang lang s)) = effects s @ new \<and>
            mymemory_targets new = (if hit then [] else [lang]) \<and>
            cache_hits (stats (snd (translate_text w text source_lang lang s))) =
              cache_hits (stats s) + (if hit then 1 else 0)"
      by blast
    with c show ?thesis by blast
  qed
qed

lemma translate_all_attempts:
  "cache_inv (translation_cache s) \<Longrightarrow> 1 \<le> max_size (translation_cache s) \<Longrightarrow>
   \<exists>new flags.
     effects (snd (translate_all w text source_lang langs tr s)) = effects s @ new \<and>
     length flags = length langs \<and>
     mymemory_targets new = map fst (filter (\<lambda>p. \<not> snd p) (zip langs flags)) \<and>
     cache_hits (stats (snd (translate_all w text source_lang langs tr s))) =
       cache_hits (stats s) + int (length (filter (\<lambda>hit. hit) flags))"
proof (induction langs arbitrary: tr s)
  case Nil
  have "effects s = effects s @ [] \<and> length ([] :: bool list) = length ([] :: string list) \<and>
     mymemory_targets [] = map fst (filter (\<lambda>p. \<not> snd p) (zip ([] :: string list) ([] :: bool list))) \<and>
     cache_hits (stats s) = cache_hits (stats s) + int (length (filter (\<lambda>hit. hit) ([] :: bool list)))"
    by simp
  then show ?case by (simp only: translate_all.simps snd_conv) blast
next
  case (Cons lang langs)
  obtain r s1 where t: "translate_text w text source_lang lang s = (r, s1)"
    by (cases "translate_text w text source_lang lang s")
  from translate_text_attempt[OF Cons.prems, of w "text" source_lang lang] t
  obtain new1 hit where inv1: "cache_inv (translation_cache s1)"
    and m1: "1 \<le> max_size (translation_cache s1)"
    and e1: "effects s1 = effects s @ new1"
    and t1: "mymemory_targets new1 = (if hit then [] else [lang])"
    and h1: "cache_hits (stats s1) = cache_hits (stats s) + (if hit then 1 else 0)"
    by auto
  define tr1 where "tr1 = (case r of Inr translated \<Rightarrow> od_setitem tr lang translated | Inl _ \<Rightarrow> tr)"
  have step: "translate_all w text source_lang (lang # langs) tr s =
              translate_all w text source_lang langs tr1 s1"
    by (cases r) (simp_all add: t tr1_def)
  from Cons.IH[OF inv1 m1, of tr1]
  obtain new2 flags2 where e2: "effects (snd (translate_all w text source_lang langs tr1 s1)) = effects s1 @ new2"
    and l2: "length flags2 = length langs"
    and t2: "mymemory_targets new2 = map fst (filter (\<lambda>p. \<not> snd p) (zip langs flags2))"
    and h2: "cache_hits (stats (snd (translate_all w text source_lang langs tr1 s1))) =
               cache_hits (stats s1) + int (length (filter (\<lambda>hit. hit) flags2))"
    by blast
  have "effects (snd (translate_all w text source_lang (lang # langs) tr s)) = effects s @ (new1 @ new2) \<and>
     length (hit # flags2) = length (lang # langs) \<and>
     mymemory_targets (new1 @ new2) = map fst (filter (\<lambda>p. \<not> snd p) (zip (lang # langs) (hit # flags2))) \<and>
     cache_hits (stats (snd (translate_all w text source_lang (lang # langs) tr s))) =
       cache_hits (stats s) + int (length (filter (\<lambda>hit. hit) (hit # flags2)))"
    unfolding step using e1 e2 l2 t1 t2 h1 h2 by (simp add: mymemory_targets_append)
  then show ?case by blast
qed

lemma send_reply_cache_hits:
  "cache_hits (stats (snd (send_reply w msg produced s))) = cache_hits (stats s)"
  by (simp add: send_reply_def Let_def update_rate_limit_def dd_getitem_def
      split: sum.splits py_exception.splits option.splits)

lemma on_message_attempts:
  assumes st: "should_translate msg"
    and can: "fst (fst (check_rate_limit cfg (clock_check w) (author_id msg) s))"
    and det: "detect w (py_strip (content msg)) = Inr detected"
    and inv: "cache_inv (translation_cache s)" and m: "1 \<le> max_size (translation_cache s)"
  shows "\<exists>new flags.
     effects (snd (on_message cfg w msg s)) = effects s @ new \<and>
     length flags = length (langs_to_translate TARGET_LANGUAGES (normalize_lang detected)) \<and>
     mymemory_targets new =
       map fst (filter (\<lambda>p. \<not> snd p)
         (zip (langs_to_translate TARGET_LANGUAGES (normalize_lang detected)) flags)) \<and>
     cache_hits (stats (snd (on_message cfg w msg s))) =
       cache_hits (stats s) + int (length (filter (\<lambda>hit. hit) flags))"
proof -
  let ?s1 = "snd (check_rate_limit cfg (clock_check w) (author_id msg) s)"
  let ?langs = "langs_to_translate TARGET_LANGUAGES (normalize_lang detected)"
  let ?loop = "translate_all w (py_strip (content msg)) (normalize_lang detected) ?langs [] ?s1"
  have c1: "translation_cache ?s1 = translation_cache s" and e1: "effects ?s1 = effects s"
    and h1: "cache_hits (stats ?s1) = cache_hits (stats s)"
    by (simp_all add: check_rate_limit_state)
  from translate_all_attempts[of ?s1 w "py_strip (content msg)" "normalize_lang detected" ?langs "[]"]
    inv m c1
  obtain new flags where a: "effects (snd ?loop) = effects ?s1 @ new"
    and b: "length flags = length ?langs"
    and c: "mymemory_targets new = map fst (filter (\<lambda>p. \<not> snd p) (zip ?langs flags))"
    and d: "cache_hits (stats (snd ?loop)) = cache_hits (stats ?s1) + int (length (filter (\<lambda>hit. hit) flags))"
    by auto
  obtain produced s2 where lp: "?loop = (produced, s2)" by (cases ?loop)
  have om: "on_message cfg w msg s =
      (if produced = [] then (NoTranslations, s2) else send_reply w msg produced s2)"
    by (simp add: on_message_pipeline[OF st can det] lp)
  show ?thesis
  proof (cases "produced = []")
    case True
    have "effects (snd (on_message cfg w msg s)) = effects s @ new \<and>
          cache_hits (stats (snd (on_message cfg w msg s))) =
            cache_hits (stats s) + int (length (filter (\<lambda>hit. hit) flags))"
      using True om a d e1 h1 lp by simp
    with b c show ?thesis by blast
  next
    case False
    have "effects (snd (on_message cfg w msg s)) = effects s @ (new @ [ReplyCall (build_embed produced)]) \<and>
          mymemory_targets (new @ [ReplyCall (build_embed produced)]) =
            map fst (filter (\<lambda>p. \<not> snd p) (zip ?langs flags)) \<and>
          cache_hits (stats (snd (on_message cfg w msg s))) =
            cache_hits (stats s) + int (length (filter (\<lambda>hit. hit) flags))"
      using False om a c d e1 h1 lp
      by (simp add: send_reply_effects send_reply_cache_hits mymemory_targets_append)
    with b show ?thesis by blast
  qed
qed

lemma count_flags:
  "length flags = length langs \<Longrightarrow>
   length (filter (\<lambda>p. \<not> snd p) (zip langs flags)) + length (filter (\<lambda>hit. hit) flags) = length langs"
  by (induction flags langs rule: list_induct2) auto

text \<open>
  Claim C6. The languages \<open>on_message\<close> sets out to translate into are the configured
  targets without the source language when the source is a configured target, and all
  configured targets otherwise. With the targets \<open>en\<close>, \<open>fr\<close>, \<open>es\<close>, the source
  \<open>fr\<close> gives \<open>en\<close>, \<open>es\<close> and the source \<open>de\<close> gives all three. Once the filter,
  the rate limiter and the detector have passed, \<open>on_message\<close> runs the translation loop
  over exactly this list, and the loop attempts every language of its list, whether or
  not an earlier one failed: taken in order, each language either counts one cache hit or
  gets one call of MyMemory with that language as target, so the cache hits and the
  MyMemory calls of the run add up to the length of the list.
\<close>

theorem langs_to_translate_target_set:
  "(source_lang \<in> set targets \<longrightarrow>
      set (langs_to_translate targets source_lang) = set targets - {source_lang})
   \<and> (source_lang \<notin> set targets \<longrightarrow> set (langs_to_translate targets source_lang) = set targets)
   \<and> set (langs_to_translate TARGET_LANGUAGES source_lang) =
        (if source_lang \<in> {''en'', ''fr'', ''es''} then {''en'', ''fr'', ''es''} - {source_lang}
         else {''en'', ''fr'', ''es''})
   \<and> langs_to_translate TARGET_LANGUAGES ''fr'' = [''en'', ''es'']
   \<and> langs_to_translate TARGET_LANGUAGES ''de'' = [''en'', ''fr'', ''es'']
   \<and> (should_translate msg \<and>
       fst (fst (check_rate_limit cfg (clock_check w) (author_id msg) s)) \<and>
       detect w (py_strip (content msg)) = Inr detected \<longrightarrow>
       on_message cfg w msg s =
         (case translate_all w (py_strip (content msg)) (normalize_lang detected)
                 (langs_to_translate TARGET_LANGUAGES (normalize_lang detected)) []
                 (snd (check_rate_limit cfg (clock_check w) (author_id msg) s)) of
            (translations, s2) \<Rightarrow>
              if translations = [] then (NoTranslations, s2)
              else send_reply w msg translations s2))
   \<and> (cache_inv (translation_cache s) \<and> 1 \<le> max_size (translation_cache s) \<longrightarrow>
       (\<exists>new flags.
          effects (snd (translate_all w body source_lang langs produced s)) = effects s @ new \<and>
          length flags = length langs \<and>
          mymemory_targets new = map fst (filter (\<lambda>p. \<not> snd p) (zip langs flags)) \<and>
          cache_hits (stats (snd (translate_all w body source_lang langs produced s))) =
            cache_hits (stats s) + int (length (filter (\<lambda>hit. hit) flags))))
   \<and> (should_translate msg \<and>
       fst (fst (check_rate_limit cfg (clock_check w) (author_id msg) s)) \<and>
       detect w (py_strip (content msg)) = Inr detected \<and>
       cache_inv (translation_cache s) \<and> 1 \<le> max_size (translation_cache s) \<longrightarrow>
       (\<exists>new flags.
          effects (snd (on_message cfg w msg s)) = effects s @ new \<and>
          length flags = length (langs_to_translate TARGET_LANGUAGES (normalize_lang detected)) \<and>
          mymemory_targets new =
            map fst (filter (\<lambda>p. \<not> snd p)
              (zip (langs_to_translate TARGET_LANGUAGES (normalize_lang detected)) flags)) \<and>
          cache_hits (stats (snd (on_message cfg w msg s))) =
            cache_hits (stats s) + int (length (filter (\<lambda>hit. hit) flags)) \<and>
          int (length (mymemory_targets new)) +
            (cache_hits (stats (snd (on_message cfg w msg s))) - cache_hits (stats s)) =
            int (length (langs_to_translate TARGET_LANGUAGES (normalize_lang detected)))))"
proof -
  have pipeline: "should_translate msg \<and>
       fst (fst (check_rate_limit cfg (clock_check w) (author_id msg) s)) \<and>
       detect w (py_strip (content msg)) = Inr detected \<longrightarrow>
       on_message cfg w msg s =
         (case translate_all w (py_strip (content msg)) (normalize_lang detected)
                 (langs_to_translate TARGET_LANGUAGES (normalize_lang detected)) []
                 (snd (check_rate_limit cfg (clock_check w) (author_id msg) s)) of
            (translations, s2) \<Rightarrow>
              if translations = [] then (NoTranslations, s2)
              else send_reply w msg translations s2)"
    using on_message_pipeline[of msg cfg w s detected] by blast
  have lists: "(source_lang \<in> set targets \<longrightarrow>
      set (langs_to_translate targets source_lang) = set targets - {source_lang})
   \<and> (source_lang \<notin> set targets \<longrightarrow> set (langs_to_translate targets source_lang) = set targets)
   \<and> set (langs_to_translate TARGET_LANGUAGES source_lang) =
        (if source_lang \<in> {''en'', ''fr'', ''es''} then {''en'', ''fr'', ''es''} - {source_lang}
         else {''en'', ''fr'', ''es''})
   \<and> langs_to_translate TARGET_LANGUAGES ''fr'' = [''en'', ''es'']
   \<and> langs_to_translate TARGET_LANGUAGES ''de'' = [''en'', ''fr'', ''es'']"
    by (auto simp: langs_to_translate_def TARGET_LANGUAGES_def Let_def)
  have loop: "cache_inv (translation_cache s) \<and> 1 \<le> max_size (translation_cache s) \<longrightarrow>
       (\<exists>new flags.
          effects (snd (translate_all w body source_lang langs produced s)) = effects s @ new \<and>
          length flags = length langs \<and>
          mymemory_targets new = map fst (filter (\<lambda>p. \<not> snd p) (zip langs flags)) \<and>
          cache_hits (stats (snd (translate_all w body source_lang langs produced s))) =
            cache_hits (stats s) + int (length (filter (\<lambda>hit. hit) flags)))"
    using translate_all_attempts[of s w body source_lang langs produced] by blast
  have whole: "\<exists>new flags.
          effects (snd (on_message cfg w msg s)) = effects s @ new \<and>
          length flags = length (langs_to_translate TARGET_LANGUAGES (normalize_lang detected)) \<and>
          mymemory_targets new =
            map fst (filter (\<lambda>p. \<not> snd p)
              (zip (langs_to_translate TARGET_LANGUAGES (normalize_lang detected)) flags)) \<and>
          cache_hits (stats (snd (on_message cfg w msg s))) =
            cache_hits (stats s) + int (length (filter (\<lambda>hit. hit) flags)) \<and>
          int (length (mymemory_targets new)) +
            (cache_hits (stats (snd (on_message cfg w msg s))) - cache_hits (stats s)) =
            int (length (langs_to_translate TARGET_LANGUAGES (normalize_lang detected)))"
    if h: "should_translate msg \<and>
       fst (fst (check_rate_limit cfg (clock_check w) (author_id msg) s)) \<and>
       detect w (py_strip (content msg)) = Inr detected \<and>
       cache_inv (translation_cache s) \<and> 1 \<le> max_size (translation_cache s)"
  proof -
    let ?langs = "langs_to_translate TARGET_LANGUAGES (normalize_lang detected)"
    from h on_message_attempts[of msg cfg w s detected]
    obtain new flags where a: "effects (snd (on_message cfg w msg s)) = effects s @ new"
      and b: "length flags = length ?langs"
      and c: "mymemory_targets new = map fst (filter (\<lambda>p. \<not> snd p) (zip ?langs flags))"
      and d: "cache_hits (stats (snd (on_message cfg w msg s))) =
            cache_hits (stats s) + int (length (filter (\<lambda>hit. hit) flags))"
      by blast
    have "length (mymemory_targets new) + length (filter (\<lambda>hit. hit) flags) = length ?langs"
      using count_flags[OF b] by (simp add: c)
    then have "int (length (mymemory_targets new)) +
            (cache_hits (stats (snd (on_message cfg w msg s))) - cache_hits (stats s)) =
            int (length ?langs)"
      using d by simp
    with a b c d show ?thesis by blast
  qed
  show ?thesis
    using pipeline lists loop whole by blast
qed

theorem langs_to_translate_target_set_witness:
  "''fr'' \<in> set TARGET_LANGUAGES \<and>
   set (langs_to_translate TARGET_LANGUAGES ''fr'') = {''en'', ''es''} \<and>
   ''de'' \<notin> set TARGET_LANGUAGES \<and>
   set (langs_to_translate TARGET_LANGUAGES ''de'') = {''en'', ''fr'', ''es''} \<and>
   should_translate demo_message \<and>
   fst (fst (check_rate_limit default_config
     (clock_check (demo_world (Inl (OtherException ''quota'')) (Inl (OtherException ''down'')) (Inr ())))
     (author_id demo_message) initial_state)) \<and>
   detect (demo_world (Inl (OtherException ''quota'')) (Inl (OtherException ''down'')) (Inr ()))
     (py_strip (content demo_message)) = Inr ''fr'' \<and>
   cache_inv (translation_cache initial_state) \<and>
   1 \<le> max_size (translation_cache initial_state) \<and>
   effects (snd (on_message default_config
     (demo_world (Inl (OtherException ''quota'')) (Inl (OtherException ''down'')) (Inr ()))
     demo_message initial_state))
     = [BackendCall MyMemory ''fr'' ''en'' ''Bonjour le monde'',
        BackendCall Google ''fr'' ''en'' ''Bonjour le monde'',
        BackendCall MyMemory ''fr'' ''es'' ''Bonjour le monde'',
        BackendCall Google ''fr'' ''es'' ''Bonjour le monde''] \<and>
   int (length (mymemory_targets (effects (snd (on_message default_config
     (demo_world (Inl (OtherException ''quota'')) (Inl (OtherException ''down'')) (Inr ()))
     demo_message initial_state))))) +
     cache_hits (stats (snd (on_message default_config
     (demo_world (Inl (OtherException ''quota'')) (Inl (OtherException ''down'')) (Inr ()))
     demo_message initial_state))) = 2"
proof -
  let ?w = "demo_world (Inl (OtherException ''quota'')) (Inl (OtherException ''down'')) (Inr ())"
  have a: "''fr'' \<in> set TARGET_LANGUAGES" and b: "''de'' \<notin> set TARGET_LANGUAGES"
    by (simp_all add: TARGET_LANGUAGES_def)
  from langs_to_translate_target_set[of "''fr''" TARGET_LANGUAGES] a
  have c: "set (langs_to_translate TARGET_LANGUAGES ''fr'') = set TARGET_LANGUAGES - {''fr''}"
    by blast
  from langs_to_translate_target_set[of "''de''" TARGET_LANGUAGES] b
  have d: "set (langs_to_translate TARGET_LANGUAGES ''de'') = set TARGET_LANGUAGES"
    by blast
  have ck: "clock_check ?w = 1000" and dt: "\<And>t. detect ?w t = Inr ''fr''"
    by (simp_all add: demo_world_def)
  have inv: "cache_inv (translation_cache initial_state)"
    and cap: "1 \<le> max_size (translation_cache initial_state)"
    and e0: "effects initial_state = []" and h0: "cache_hits (stats initial_state) = 0"
    by (simp_all add: initial_state_def TTLCache_init_def cache_inv_def CACHE_MAX_SIZE_def)
  have h: "should_translate demo_message \<and>
       fst (fst (check_rate_limit default_config (clock_check ?w) (author_id demo_message) initial_state)) \<and>
       detect ?w (py_strip (content demo_message)) = Inr ''fr'' \<and>
       cache_inv (translation_cache initial_state) \<and> 1 \<le> max_size (translation_cache initial_state)"
    using inv cap by (simp add: demo_should_translate ck dt demo_fields demo_check)
  then have h': "should_translate demo_message \<and>
       fst (fst (check_rate_limit default_config (clock_check ?w) (author_id demo_message) initial_state)) \<and>
       detect ?w (py_strip (content demo_message)) = Inr ''fr''"
    by blast
  note th = langs_to_translate_target_set[where msg = demo_message and cfg = default_config and w = ?w
      and s = initial_state and detected = "''fr''"]
  from th h'
  have om: "on_message default_config ?w demo_message initial_state =
         (case translate_all ?w (py_strip (content demo_message)) (normalize_lang ''fr'')
                 (langs_to_translate TARGET_LANGUAGES (normalize_lang ''fr'')) []
                 (snd (check_rate_limit default_config (clock_check ?w) (author_id demo_message) initial_state)) of
            (translations, s2) \<Rightarrow>
              if translations = [] then (NoTranslations, s2)
              else send_reply ?w demo_message translations s2)"
    by blast
  from th h
  obtain new and flags :: "bool list"
    where n1: "effects (snd (on_message default_config ?w demo_message initial_state))
        = effects initial_state @ new"
    and n2: "int (length (mymemory_targets new)) +
            (cache_hits (stats (snd (on_message default_config ?w demo_message initial_state)))
               - cache_hits (stats initial_state)) =
            int (length (langs_to_translate TARGET_LANGUAGES (normalize_lang ''fr'')))"
    by blast
  have two: "langs_to_translate TARGET_LANGUAGES (normalize_lang ''fr'') = [''en'', ''es'']"
    by (simp add: demo_normalize langs_to_translate_def TARGET_LANGUAGES_def)
  have cnt: "int (length (mymemory_targets (effects (snd (on_message default_config ?w demo_message initial_state))))) +
     cache_hits (stats (snd (on_message default_config ?w demo_message initial_state))) = 2"
    using n1 n2 by (simp add: e0 h0 two)
  have ev: "effects (snd (on_message default_config ?w demo_message initial_state))
     = [BackendCall MyMemory ''fr'' ''en'' ''Bonjour le monde'',
        BackendCall Google ''fr'' ''en'' ''Bonjour le monde'',
        BackendCall MyMemory ''fr'' ''es'' ''Bonjour le monde'',
        BackendCall Google ''fr'' ''es'' ''Bonjour le monde'']"
    unfolding om ck demo_fields demo_check snd_conv
    by (simp add: demo_strip demo_normalize
      initial_state_def demo_world_def
      langs_to_translate_def TARGET_LANGUAGES_def translate_text_def try_backend_def
      TTLCache_get_def TTLCache_set_def TTLCache_init_def od_contains_def od_setitem_def
      evict_loop.simps CACHE_MAX_SIZE_def CACHE_TTL_SECONDS_def truthy_def
      send_reply_def build_embed_def truncate_field_def update_rate_limit_def dd_getitem_def Let_def)
  have goal1: "''fr'' \<in> set TARGET_LANGUAGES \<and>
   set (langs_to_translate TARGET_LANGUAGES ''fr'') = {''en'', ''es''} \<and>
   ''de'' \<notin> set TARGET_LANGUAGES \<and>
   set (langs_to_translate TARGET_LANGUAGES ''de'') = {''en'', ''fr'', ''es''}"
    using a b unfolding c d by (auto simp: TARGET_LANGUAGES_def)
  show ?thesis using goal1 h ev cnt by blast
qed

text \<open>
  Claim C8, as the code has it. \<open>message.reply\<close> is called once. If it returns, the rate
  limiter is committed and \<open>translations_total\<close> grows by the number of languages
  produced. If it raises, the rate limiter and \<open>translations_total\<close> are left as they
  were; an HTTP error that is no permission rejection adds one to \<open>errors\<close>, while a
  permission rejection (\<open>discord.Forbidden\<close>) leaves \<open>errors\<close> unchanged. For a whole
  run of \<open>on_message\<close>: it ends with a delivered reply only if \<open>message.reply\<close>
  returned, and then the commit and the increment have happened; on every other outcome the
  cooldown map and the timestamp sequences are as the rate-limit check left them and
  \<open>translations_total\<close> is as at the start.
\<close>

theorem reply_commits_only_on_delivery:
  "let sent = build_embed produced;
       r = send_reply w msg produced s;
       out = on_message cfg w msg s0;
       checked = (if should_translate msg
                  then snd (check_rate_limit cfg (clock_check w) (author_id msg) s0) else s0)
   in effects (snd r) = effects s @ [ReplyCall sent]
      \<and> (reply w sent = Inr () \<longrightarrow>
           r = (Replied sent,
                (update_rate_limit (clock_commit w) (author_id msg) s)
                  \<lparr>effects := effects s @ [ReplyCall sent],
                   stats := (stats s)\<lparr>translations_total :=
                      translations_total (stats s) + int (length produced)\<rparr>\<rparr>))
      \<and> (reply w sent = Inl e \<longrightarrow>
           (\<forall>x. fst r \<noteq> Replied x) \<and>
           author_cooldowns (snd r) = author_cooldowns s \<and>
           author_translation_count (snd r) = author_translation_count s \<and>
           translations_total (stats (snd r)) = translations_total (stats s) \<and>
           errors (stats (snd r)) = errors (stats s) + (if e = HTTPException then 1 else 0))
      \<and> (fst out = Replied delivered \<longrightarrow>
           reply w delivered = Inr () \<and>
           translations_total (stats (snd out)) = translations_total (stats s0) + int (length delivered) \<and>
           author_cooldowns (snd out) = (author_cooldowns checked)(author_id msg \<mapsto> clock_commit w) \<and>
           recorded (snd out) (author_id msg) = recorded checked (author_id msg) @ [clock_commit w])
      \<and> ((\<forall>x. fst out \<noteq> Replied x) \<longrightarrow>
           translations_total (stats (snd out)) = translations_total (stats s0) \<and>
           author_cooldowns (snd out) = author_cooldowns checked \<and>
           author_translation_count (snd out) = author_translation_count checked)"
proof -
  let ?sent = "build_embed produced"
  let ?r = "send_reply w msg produced s"
  let ?out = "on_message cfg w msg s0"
  let ?checked = "if should_translate msg
                  then snd (check_rate_limit cfg (clock_check w) (author_id msg) s0) else s0"
  have p1: "effects (snd ?r) = effects s @ [ReplyCall ?sent]"
    by (rule send_reply_effects)
  have p2: "?r = (Replied ?sent,
                (update_rate_limit (clock_commit w) (author_id msg) s)
                  \<lparr>effects := effects s @ [ReplyCall ?sent],
                   stats := (stats s)\<lparr>translations_total :=
                      translations_total (stats s) + int (length produced)\<rparr>\<rparr>)"
    if "reply w ?sent = Inr ()"
    using that by (rule send_reply_delivered)
  have p3: "(\<forall>x. fst ?r \<noteq> Replied x) \<and>
           author_cooldowns (snd ?r) = author_cooldowns s \<and>
           author_translation_count (snd ?r) = author_translation_count s \<and>
           translations_total (stats (snd ?r)) = translations_total (stats s) \<and>
           errors (stats (snd ?r)) = errors (stats s) + (if e = HTTPException then 1 else 0)"
    if "reply w ?sent = Inl e"
    unfolding send_reply_failed[OF that] by (cases e) simp_all
  have p4: "reply w delivered = Inr () \<and>
           translations_total (stats (snd ?out)) = translations_total (stats s0) + int (length delivered) \<and>
           author_cooldowns (snd ?out) = (author_cooldowns ?checked)(author_id msg \<mapsto> clock_commit w) \<and>
           recorded (snd ?out) (author_id msg) = recorded ?checked (author_id msg) @ [clock_commit w]"
    if rep: "fst ?out = Replied delivered"
  proof -
    from on_message_cases[of cfg w msg s0] rep
    obtain made s2 where om: "?out = send_reply w msg made s2"
      and f1: "author_cooldowns s2 = author_cooldowns ?checked"
      and f2: "author_translation_count s2 = author_translation_count ?checked"
      and f3: "translations_total (stats s2) = translations_total (stats s0)"
      by auto
    from rep have ok: "reply w (build_embed made) = Inr ()" and d: "delivered = build_embed made"
      unfolding om send_reply_outcome by simp_all
    have rec: "recorded s2 (author_id msg) = recorded ?checked (author_id msg)"
      by (rule recorded_cong[OF f2])
    have rec': "recorded ((update_rate_limit (clock_commit w) (author_id msg) s2)
                  \<lparr>effects := ef, stats := st\<rparr>) (author_id msg)
                = recorded s2 (author_id msg) @ [clock_commit w]" for ef st
      using update_rate_limit_view(2)[of "clock_commit w" "author_id msg" s2 "author_id msg"]
      by (simp add: recorded_def)
    show ?thesis
      unfolding om send_reply_delivered[OF ok] d snd_conv rec' rec
      using ok f1 f3
      by (simp add: build_embed_length update_rate_limit_view update_rate_limit_cooldowns)
  qed
  have p5: "translations_total (stats (snd ?out)) = translations_total (stats s0) \<and>
           author_cooldowns (snd ?out) = author_cooldowns ?checked \<and>
           author_translation_count (snd ?out) = author_translation_count ?checked"
    if nrep: "\<forall>x. fst ?out \<noteq> Replied x"
  proof -
    from on_message_cases[of cfg w msg s0]
    consider (sent) made s2 where "?out = send_reply w msg made s2"
        "author_cooldowns s2 = author_cooldowns ?checked"
        "author_translation_count s2 = author_translation_count ?checked"
        "translations_total (stats s2) = translations_total (stats s0)"
      | (stopped) "author_cooldowns (snd ?out) = author_cooldowns ?checked"
        "author_translation_count (snd ?out) = author_translation_count ?checked"
        "translations_total (stats (snd ?out)) = translations_total (stats s0)"
      by blast
    then show ?thesis
    proof cases
      case sent
      from nrep have "reply w (build_embed made) \<noteq> Inr ()"
        unfolding sent(1) send_reply_outcome by simp
      then obtain e' where fail: "reply w (build_embed made) = Inl e'"
        by (cases "reply w (build_embed made)") auto
      show ?thesis
        unfolding sent(1) send_reply_failed[OF fail] using sent(2,3,4) by simp
    next
      case stopped
      then show ?thesis by simp
    qed
  qed
  show ?thesis
    unfolding Let_def using p1 p2 p3 p4 p5 by blast
qed

lemma demo_outcome:
  "fst (on_message default_config (demo_world (Inr ''Hello world'') (Inr ''Hi world'') outcome)
         demo_message initial_state)
     = (case outcome of
          Inr _ \<Rightarrow> Replied [(''en'', ''Hello world''), (''es'', ''Hello world'')]
        | Inl Forbidden \<Rightarrow> ReplyFailed Forbidden
        | Inl HTTPException \<Rightarrow> ReplyFailed HTTPException
        | Inl e \<Rightarrow> Raised e)"
proof -
  have ck: "clock_check (demo_world (Inr ''Hello world'') (Inr ''Hi world'') outcome) = 1000"
    by (simp add: demo_world_def)
  show ?thesis
    unfolding on_message_def ck demo_fields demo_check
    by (simp add: demo_should_translate demo_strip demo_normalize
      initial_state_def demo_world_def
      langs_to_translate_def TARGET_LANGUAGES_def translate_text_def try_backend_def
      TTLCache_get_def TTLCache_set_def TTLCache_init_def od_contains_def od_setitem_def
      evict_loop.simps CACHE_MAX_SIZE_def CACHE_TTL_SECONDS_def truthy_def
      send_reply_def build_embed_def truncate_field_def update_rate_limit_def dd_getitem_def Let_def
      split: sum.splits py_exception.splits)
qed

theorem reply_commits_only_on_delivery_witness:
  "reply (demo_world (Inr ''Hello world'') (Inr ''Hi world'') (Inr ()))
      (build_embed [(''en'', ''Hello world'')]) = Inr () \<and>
   fst (send_reply (demo_world (Inr ''Hello world'') (Inr ''Hi world'') (Inr ()))
      demo_message [(''en'', ''Hello world'')] initial_state)
     = Replied (build_embed [(''en'', ''Hello world'')]) \<and>
   translations_total (stats (snd (send_reply (demo_world (Inr ''Hello world'') (Inr ''Hi world'') (Inr ()))
      demo_message [(''en'', ''Hello world'')] initial_state))) = 1 \<and>
   fst (on_message default_config (demo_world (Inr ''Hello world'') (Inr ''Hi world'') (Inr ()))
      demo_message initial_state) = Replied [(''en'', ''Hello world''), (''es'', ''Hello world'')] \<and>
   translations_total (stats (snd (on_message default_config
      (demo_world (Inr ''Hello world'') (Inr ''Hi world'') (Inr ())) demo_message initial_state))) = 2 \<and>
   author_cooldowns (snd (on_message default_config
      (demo_world (Inr ''Hello world'') (Inr ''Hi world'') (Inr ())) demo_message initial_state)) 7
     = Some 1003 \<and>
   recorded (snd (on_message default_config
      (demo_world (Inr ''Hello world'') (Inr ''Hi world'') (Inr ())) demo_message initial_state)) 7
     = [1003] \<and>
   reply (demo_world (Inr ''Hello world'') (Inr ''Hi world'') (Inl HTTPException))
      (build_embed [(''en'', ''Hello world'')]) = Inl HTTPException \<and>
   errors (stats (snd (send_reply (demo_world (Inr ''Hello world'') (Inr ''Hi world'') (Inl HTTPException))
      demo_message [(''en'', ''Hello world'')] initial_state))) = 1 \<and>
   fst (on_message default_config (demo_world (Inr ''Hello world'') (Inr ''Hi world'') (Inl HTTPException))
      demo_message initial_state) = ReplyFailed HTTPException \<and>
   translations_total (stats (snd (on_message default_config
      (demo_world (Inr ''Hello world'') (Inr ''Hi world'') (Inl HTTPException)) demo_message initial_state))) = 0 \<and>
   author_translation_count (snd (on_message default_config
      (demo_world (Inr ''Hello world'') (Inr ''Hi world'') (Inl HTTPException)) demo_message initial_state)) 7
     = Some []"
proof -
  let ?ok = "demo_world (Inr ''Hello world'') (Inr ''Hi world'') (Inr ())"
  let ?ko = "demo_world (Inr ''Hello world'') (Inr ''Hi world'') (Inl HTTPException)"
  let ?tr = "[(''en'', ''Hello world'')]"
  let ?both = "[(''en'', ''Hello world''), (''es'', ''Hello world'')]"
  have rok: "reply ?ok (build_embed ?tr) = Inr ()"
    and rko: "reply ?ko (build_embed ?tr) = Inl HTTPException"
    and ck: "clock_check ?ok = 1000" "clock_check ?ko = 1000"
    and cc: "clock_commit ?ok = 1003"
    by (simp_all add: demo_world_def)
  have st0: "translations_total (stats initial_state) = 0" "errors (stats initial_state) = 0"
    by (simp_all add: initial_state_def)
  have chk: "(if should_translate demo_message
              then snd (check_rate_limit default_config 1000 (author_id demo_message) initial_state)
              else initial_state)
           = initial_state\<lparr>author_cooldowns := [7 \<mapsto> 0], author_translation_count := [7 \<mapsto> []]\<rparr>"
    by (simp add: demo_should_translate demo_fields demo_check)
  have o1: "fst (on_message default_config ?ok demo_message initial_state) = Replied ?both"
    by (simp add: demo_outcome)
  have o2: "fst (on_message default_config ?ko demo_message initial_state) = ReplyFailed HTTPException"
    by (simp add: demo_outcome)
  then have n2: "\<forall>x. fst (on_message default_config ?ko demo_message initial_state) \<noteq> Replied x"
    by simp
  note th1 = reply_commits_only_on_delivery[where w = ?ok and msg = demo_message
      and produced = ?tr and s = initial_state and cfg = default_config and ?s0.0 = initial_state
      and delivered = ?both, unfolded Let_def ck chk]
  note th2 = reply_commits_only_on_delivery[where w = ?ko and msg = demo_message
      and produced = ?tr and s = initial_state and cfg = default_config and ?s0.0 = initial_state
      and e = HTTPException, unfolded Let_def ck chk]
  from th1 rok have a1: "send_reply ?ok demo_message ?tr initial_state =
       (Replied (build_embed ?tr),
                (update_rate_limit (clock_commit ?ok) (author_id demo_message) initial_state)
                  \<lparr>effects := effects initial_state @ [ReplyCall (build_embed ?tr)],
                   stats := (stats initial_state)\<lparr>translations_total :=
                      translations_total (stats initial_state) + int (length ?tr)\<rparr>\<rparr>)"
    by blast
  from th1 o1 have a2: "translations_total (stats (snd (on_message default_config ?ok demo_message initial_state)))
        = translations_total (stats initial_state) + int (length ?both)"
    and a3: "author_cooldowns (snd (on_message default_config ?ok demo_message initial_state))
        = (author_cooldowns (initial_state\<lparr>author_cooldowns := [7 \<mapsto> 0], author_translation_count := [7 \<mapsto> []]\<rparr>))
            (author_id demo_message \<mapsto> clock_commit ?ok)"
    and a4: "recorded (snd (on_message default_config ?ok demo_message initial_state)) (author_id demo_message)
        = recorded (initial_state\<lparr>author_cooldowns := [7 \<mapsto> 0], author_translation_count := [7 \<mapsto> []]\<rparr>)
            (author_id demo_message) @ [clock_commit ?ok]"
    by blast+
  from th2 rko have b1: "errors (stats (snd (send_reply ?ko demo_message ?tr initial_state)))
       = errors (stats initial_state) + (if HTTPException = HTTPException then 1 else 0)"
    by blast
  from th2 n2 have b2: "translations_total (stats (snd (on_message default_config ?ko demo_message initial_state)))
        = translations_total (stats initial_state)"
    and b3: "author_translation_count (snd (on_message default_config ?ko demo_message initial_state))
        = author_translation_count (initial_state\<lparr>author_cooldowns := [7 \<mapsto> 0], author_translation_count := [7 \<mapsto> []]\<rparr>)"
    by blast+
  show ?thesis
    unfolding a1 a2 a3 b1 b2 b3 o1 o2 using rok rko a4
    by (simp add: st0 cc demo_fields recorded_def dd_getitem_def)
qed

text \<open>
  A reply rejected for a missing permission is a delivery failure, and the error counter
  stays as it was.
\<close>

theorem forbidden_reply_not_counted_counterexample:
  "fst (on_message default_config (demo_world (Inr ''Hello world'') (Inr ''Hi world'') (Inl Forbidden))
      demo_message initial_state) = ReplyFailed Forbidden \<and>
   errors (stats (snd (on_message default_config
      (demo_world (Inr ''Hello world'') (Inr ''Hi world'') (Inl Forbidden)) demo_message initial_state)))
     = errors (stats initial_state)"
proof -
  have ck: "clock_check (demo_world (Inr ''Hello world'') (Inr ''Hi world'') (Inl Forbidden)) = 1000"
    by (simp add: demo_world_def)
  have "errors (stats (snd (on_message default_config
      (demo_world (Inr ''Hello world'') (Inr ''Hi world'') (Inl Forbidden)) demo_message initial_state)))
     = errors (stats initial_state)"
    unfolding on_message_def ck demo_fields demo_check
    by (simp add: demo_should_translate demo_strip demo_normalize
      initial_state_def demo_world_def
      langs_to_translate_def TARGET_LANGUAGES_def translate_text_def try_backend_def
      TTLCache_get_def TTLCache_set_def TTLCache_init_def od_contains_def od_setitem_def
      evict_loop.simps CACHE_MAX_SIZE_def CACHE_TTL_SECONDS_def truthy_def
      send_reply_def build_embed_def truncate_field_def update_rate_limit_def dd_getitem_def Let_def)
  then show ?thesis by (simp add: demo_outcome)
qed

end
